theory Spec2Isabelle
  imports Complex_Main "HOL-Library.Word"
begin

section \<open>Data model\<close>

type_synonym byte = "8 word"
type_synonym bytes = "byte list"

text \<open>Modelled from the spec: the framing constants of the imported module that is
  not part of the sources (section 6 of the specification: start = 0x10 0x02,
  end = 0x10 0x03); the literals in \<open>parseBuffer\<close> agree with them.\<close>

definition DLE :: byte where "DLE = 0x10"
definition STX :: byte where "STX = 0x02"
definition ETX :: byte where "ETX = 0x03"

datatype error = IndexError

text \<open>The \<open>SerialHandler\<close> object. Its class is not part of the sources; the fields are
  the attributes that \<open>pool-pi.py\<close> reads and writes. \<open>pending\<close> is the transport's
  input queue behind \<open>in_waiting()\<close> and \<open>read()\<close>, \<open>sent\<close> the log of the byte strings
  handed to \<open>send()\<close>.\<close>

record serial_handler =
  pending :: bytes
  buffer :: bytes
  buffer_full :: bool
  looking_for_start :: bool
  ready_to_send :: bool
  sent :: "bytes list"

text \<open>Modelled from the spec: \<open>SerialHandler.in_waiting\<close>, the number of bytes that can
  be read without waiting.\<close>

definition in_waiting :: "serial_handler \<Rightarrow> nat" where
  "in_waiting sh = length (pending sh)"

text \<open>Modelled from the spec: \<open>SerialHandler.read\<close>, a non-blocking read of one byte
  that returns no data (\<open>None\<close>) when the queue is empty.\<close>

definition read :: "serial_handler \<Rightarrow> byte option \<times> serial_handler" where
  "read sh = (case pending sh of
                [] \<Rightarrow> (None, sh)
              | b # bs \<Rightarrow> (Some b, sh\<lparr>pending := bs\<rparr>))"

text \<open>Modelled from the spec: \<open>SerialHandler.send\<close> writes one framed command to the bus.\<close>

definition send :: "bytes \<Rightarrow> serial_handler \<Rightarrow> serial_handler" where
  "send cmd sh = sh\<lparr>sent := sent sh @ [cmd]\<rparr>"

text \<open>Modelled from the spec: \<open>SerialHandler.reset\<close> discards the buffer and resumes
  seeking the start delimiter (section 4.2: "discard buffer, resume seeking start").\<close>

definition reset :: "serial_handler \<Rightarrow> serial_handler" where
  "reset sh = sh\<lparr>buffer := [], buffer_full := False, looking_for_start := True\<rparr>"

section \<open>The byte framer\<close>

text \<open>\<open>readSerialBus\<close>, lines 14 to 60. Python's \<open>buffer[-2]\<close> raises IndexError on a
  buffer shorter than two bytes; the conjunction at line 54 evaluates it only when the byte
  read is ETX.\<close>

definition readSerialBus :: "serial_handler \<Rightarrow> error + serial_handler" where
  "readSerialBus sh =
    (if in_waiting sh = 0 then Inr sh
     else if buffer_full sh then Inr sh
     else
       (case read sh of (serChar, sh1) \<Rightarrow>
         if looking_for_start sh1 then
           (if serChar = Some DLE then
              (case read sh1 of (serChar2, sh2) \<Rightarrow>
                 if serChar2 = Some STX
                 then Inr (sh2\<lparr>buffer := [DLE, STX], looking_for_start := False\<rparr>)
                 else Inr sh2)
            else Inr sh1)
         else
           (let buf = buffer sh1 @ (case serChar of None \<Rightarrow> [] | Some b \<Rightarrow> [b]);
                sh2 = sh1\<lparr>buffer := buf\<rparr>
            in if serChar = Some ETX then
                 (if length buf < 2 then Inl IndexError
                  else if buf ! (length buf - 2) = DLE
                  then Inr (sh2\<lparr>buffer_full := True, looking_for_start := True\<rparr>)
                  else Inr sh2)
               else Inr sh2)))"

section \<open>The collaborators\<close>

text \<open>The \<open>PoolModel\<close> object. Its class is not part of the sources; the fields are the
  attributes that \<open>pool-pi.py\<close> reads and writes, and \<open>states\<close> is the table behind
  \<open>getParameterState\<close>. The timestamp is a Python float that the program only compares.\<close>

record pool_model =
  states :: "string \<Rightarrow> string"
  timestamp :: real
  version :: int
  model_sending_message :: bool
  flag_data_changed :: bool

text \<open>Modelled from the spec: \<open>PoolModel.getParameterState\<close> returns the current value
  of the named parameter (section 6).\<close>

definition getParameterState :: "pool_model \<Rightarrow> string \<Rightarrow> string" where
  "getParameterState pm name = states pm name"

text \<open>The \<open>CommandHandler\<close> object. Its class is not part of the sources; the fields are the
  attributes that \<open>pool-pi.py\<close> reads and writes, and \<open>attempts_remaining\<close> is the attempt
  budget of section 3 of the specification.\<close>

record command_handler =
  parameter :: string
  target_state :: string
  confirm :: bool
  sending_message :: bool
  keep_alive_count :: int
  last_model_timestamp_seen :: real
  full_command :: bytes
  attempts_remaining :: nat

text \<open>What the imported modules \<open>commands\<close>, \<open>model\<close> and \<open>parsing\<close> provide and the
  sources only use: the checksum test, the payload decoders, the frame type codes, the
  command tables, the encoder of a command into its frame and the attempt budget.
  \<open>py_int\<close> is Python's \<open>int()\<close> on a string, \<open>None\<close> where it raises ValueError.\<close>

record collaborators =
  confirmChecksum :: "bytes \<Rightarrow> bool"
  parseDisplay :: "bytes \<Rightarrow> pool_model \<Rightarrow> pool_model"
  parseLEDs :: "bytes \<Rightarrow> pool_model \<Rightarrow> pool_model"
  FRAME_TYPE_KEEPALIVE :: bytes
  FRAME_TYPE_DISPLAY :: bytes
  FRAME_TYPE_LEDS :: bytes
  FRAME_TYPE_DISPLAY_SERVICE :: bytes
  FRAME_TYPE_SERVICE_MODE :: bytes
  button_toggle :: "string list"
  buttons_menu :: "string list"
  py_int :: "string \<Rightarrow> int option"
  encode_command :: "string \<Rightarrow> bytes"
  max_attempts :: nat

text \<open>Modelled from the spec: \<open>CommandHandler.initiateSend\<close> populates the handshake state
  when a command is accepted (section 3): the command is armed, the heartbeat count starts
  at zero and the attempt budget is full.\<close>

definition initiateSend ::
  "collaborators \<Rightarrow> command_handler \<Rightarrow> string \<Rightarrow> string \<Rightarrow> bool \<Rightarrow> command_handler" where
  "initiateSend env ch commandID commandState commandConfirm =
     ch\<lparr>parameter := commandID, target_state := commandState, confirm := commandConfirm,
        sending_message := True, keep_alive_count := 0,
        full_command := encode_command env commandID,
        attempts_remaining := max_attempts env\<rparr>"

text \<open>Modelled from the spec: \<open>CommandHandler.sendAttemptsRemain\<close> (section 4.4): while
  attempts remain the budget is decremented, the heartbeat count starts again at zero
  ("another two-heartbeat wait is required before retransmitting") and the answer is True;
  an exhausted budget drops the command back to Idle and the answer is False.\<close>

definition sendAttemptsRemain :: "command_handler \<Rightarrow> bool \<times> command_handler" where
  "sendAttemptsRemain ch =
     (if 0 < attempts_remaining ch
      then (True, ch\<lparr>attempts_remaining := attempts_remaining ch - 1,
                     keep_alive_count := 0\<rparr>)
      else (False, ch\<lparr>sending_message := False\<rparr>))"

section \<open>Validation and dispatch\<close>

text \<open>Python's \<open>frame.replace(b"\x10\x00", b"\x10")\<close>: occurrences are replaced from
  left to right and do not overlap.\<close>

fun replace_DLE_NUL :: "bytes \<Rightarrow> bytes" where
  "replace_DLE_NUL [] = []"
| "replace_DLE_NUL [x] = [x]"
| "replace_DLE_NUL (x # y # xs) =
     (if x = 0x10 \<and> y = 0x00 then 0x10 # replace_DLE_NUL xs
      else x # replace_DLE_NUL (y # xs))"

text \<open>Python's \<open>p in xs\<close> on byte strings: \<open>p\<close> occurs as a contiguous run.\<close>

fun bytes_in :: "bytes \<Rightarrow> bytes \<Rightarrow> bool" where
  "bytes_in p [] = (p = [])"
| "bytes_in p (x # xs) = (take (length p) (x # xs) = p \<or> bytes_in p xs)"

text \<open>Python's slice \<open>xs[a:-b]\<close> for \<open>b > 0\<close>; it is empty when fewer than \<open>a + b\<close>
  bytes are there.\<close>

definition slice_between :: "nat \<Rightarrow> nat \<Rightarrow> bytes \<Rightarrow> bytes" where
  "slice_between a b xs = take (length xs - b - a) (drop a xs)"

datatype rejection = SpuriousDelimiter | ChecksumMismatch

datatype outcome = NoFrame | Rejected rejection | Dispatched

type_synonym system = "pool_model \<times> serial_handler \<times> command_handler"

text \<open>\<open>parseBuffer\<close>, lines 63 to 128. The outcome names the return that was taken: the two
  returns after an interior delimiter (lines 75 to 82), the return after a failed checksum
  (lines 85 to 89), or the end of the function.\<close>

definition parseBuffer :: "collaborators \<Rightarrow> system \<Rightarrow> outcome \<times> system" where
  "parseBuffer env st =
    (case st of (poolModel, serialHandler, commandHandler) \<Rightarrow>
      if buffer_full serialHandler then
        (let frame = replace_DLE_NUL (buffer serialHandler) in
         if bytes_in [0x10, 0x02] (slice_between 2 2 frame) then
           (Rejected SpuriousDelimiter, poolModel, reset serialHandler, commandHandler)
         else if bytes_in [0x10, 0x03] (slice_between 2 2 frame) then
           (Rejected SpuriousDelimiter, poolModel, reset serialHandler, commandHandler)
         else if \<not> confirmChecksum env frame then
           (Rejected ChecksumMismatch, poolModel, reset serialHandler, commandHandler)
         else
           (let frameType = take 2 (drop 2 frame);
                data = slice_between 4 4 frame
            in if frameType = FRAME_TYPE_KEEPALIVE env then
                 (if ready_to_send serialHandler then
                    (if keep_alive_count commandHandler = 1 then
                       (Dispatched, poolModel,
                        reset ((send (full_command commandHandler) serialHandler)
                                 \<lparr>ready_to_send := False\<rparr>),
                        (if \<not> confirm commandHandler
                         then commandHandler\<lparr>sending_message := False\<rparr>
                         else commandHandler))
                     else
                       (Dispatched, poolModel, reset serialHandler,
                        commandHandler\<lparr>keep_alive_count := 1\<rparr>))
                  else
                    (Dispatched, poolModel, reset serialHandler,
                     commandHandler\<lparr>keep_alive_count := 0\<rparr>))
               else
                 (Dispatched,
                  (if frameType = FRAME_TYPE_DISPLAY env then parseDisplay env data poolModel
                   else if frameType = FRAME_TYPE_LEDS env then parseLEDs env data poolModel
                   else if frameType = FRAME_TYPE_DISPLAY_SERVICE env
                   then parseDisplay env data poolModel
                   else poolModel),
                  reset serialHandler,
                  commandHandler\<lparr>keep_alive_count := 0\<rparr>)))
      else (NoFrame, poolModel, serialHandler, commandHandler))"

section \<open>The command handshake\<close>

text \<open>\<open>checkCommand\<close>, lines 131 to 160; \<open>now\<close> is the value of \<open>time.time()\<close> at
  line 159.\<close>

definition checkCommand :: "real \<Rightarrow> system \<Rightarrow> system" where
  "checkCommand now st =
    (case st of (poolModel, serialHandler, commandHandler) \<Rightarrow>
      if \<not> sending_message commandHandler then st
      else if ready_to_send serialHandler then st
      else if timestamp poolModel \<ge> last_model_timestamp_seen commandHandler then
        (if getParameterState poolModel (parameter commandHandler) = target_state commandHandler
         then (poolModel\<lparr>model_sending_message := False, flag_data_changed := True\<rparr>,
               serialHandler, commandHandler\<lparr>sending_message := False\<rparr>)
         else
           (case sendAttemptsRemain commandHandler of (remain, ch1) \<Rightarrow>
              if remain
              then (poolModel, serialHandler\<lparr>ready_to_send := True\<rparr>,
                    ch1\<lparr>last_model_timestamp_seen := now\<rparr>)
              else (poolModel, serialHandler, ch1)))
      else st)"

text \<open>Python's \<open>f.readline()\<close> on the text of the queue file: the first line with its
  newline.\<close>

fun readline :: "string \<Rightarrow> string" where
  "readline [] = []"
| "readline (c # cs) = (if c = CHR 0x0A then [c] else c # readline cs)"

text \<open>Python's \<open>line.split(",")\<close>.\<close>

fun split_comma :: "string \<Rightarrow> string list" where
  "split_comma [] = [[]]"
| "split_comma (c # cs) =
     (if c = CHR '','' then [] # split_comma cs
      else (case split_comma cs of [] \<Rightarrow> [[c]] | f # fs \<Rightarrow> (c # f) # fs))"

text \<open>\<open>getCommand\<close>, lines 163 to 263. \<open>queue\<close> is the file \<open>command_queue.txt\<close>:
  \<open>None\<close> when it does not exist, otherwise its text; \<open>truncate(0)\<close> leaves the empty
  text. The return at line 225 closes the file without truncating it.\<close>

definition getCommand ::
  "collaborators \<Rightarrow> string option \<Rightarrow> system \<Rightarrow> string option \<times> system" where
  "getCommand env queue st =
    (case st of (poolModel, serialHandler, commandHandler) \<Rightarrow>
      if sending_message commandHandler then (queue, st)
      else
        (case queue of
           None \<Rightarrow> (queue, st)
         | Some text \<Rightarrow>
             if text = [] then (queue, st)
             else
               (let line = readline text; fields = split_comma line in
                if length fields = 2 then
                  (let commandID = fields ! 0 in
                   case py_int env (fields ! 1) of
                     None \<Rightarrow> (Some [], st)
                   | Some frontEndVersion \<Rightarrow>
                       if frontEndVersion \<noteq> version poolModel then (Some [], st)
                       else if commandID \<in> set (button_toggle env)
                               \<or> commandID = ''pool-spa-spillover'' then
                         (let commandID1 =
                                (if commandID = ''pool-spa-spillover'' then
                                   (if getParameterState poolModel ''pool'' = ''ON'' then ''pool''
                                    else if getParameterState poolModel ''spa'' = ''ON''
                                    then ''spa''
                                    else ''spillover'')
                                 else commandID)
                          in if getParameterState poolModel commandID1 = ''INIT''
                             then (Some text, st)
                             else
                               (let currentState = getParameterState poolModel commandID1;
                                    desiredState =
                                      (if commandID1 = ''service'' then
                                         (if currentState = ''ON'' then ''BLINK''
                                          else if currentState = ''BLINK'' then ''OFF''
                                          else ''ON'')
                                       else
                                         (if currentState = ''ON'' then ''OFF'' else ''ON''))
                                in (Some [],
                                    poolModel\<lparr>model_sending_message := True\<rparr>,
                                    serialHandler,
                                    initiateSend env commandHandler commandID1 desiredState True)))
                       else if commandID \<in> set (buttons_menu env) then
                         (Some [], poolModel, serialHandler\<lparr>ready_to_send := True\<rparr>,
                          initiateSend env commandHandler commandID ''NA'' False)
                       else (Some [], st))
                else (Some [], st))))"

text \<open>Modelled from the spec: the stuffing transform of the transmitter (section 6): a
  payload byte 0x10 is sent as 0x10 0x00.\<close>

fun stuff :: "bytes \<Rightarrow> bytes" where
  "stuff [] = []"
| "stuff (x # xs) = (if x = 0x10 then 0x10 # 0x00 # stuff xs else x # stuff xs)"

section \<open>A sample instance of the collaborators\<close>

text \<open>The theorems below hold for every value of the collaborators. To run them on
  concrete input they are applied to this instance: an additive 16-bit checksum over type
  and payload, decoders that only stamp the model, and the keep-alive type code that
  section 8 of the specification names; the other codes and the tables are samples.\<close>

definition sample_checksum :: "bytes \<Rightarrow> bool" where
  "sample_checksum frame =
     (let n = length frame
      in 8 \<le> n \<and>
         sum_list (map unat (slice_between 2 4 frame)) mod 65536
           = 256 * unat (frame ! (n - 4)) + unat (frame ! (n - 3)))"

definition sample_decoder :: "bytes \<Rightarrow> pool_model \<Rightarrow> pool_model" where
  "sample_decoder data pm = pm\<lparr>timestamp := timestamp pm + 1, flag_data_changed := True\<rparr>"

text \<open>A sample reader of integers: it accepts unsigned decimal digits and ignores line
  feeds. Python's \<open>int()\<close> accepts more (a sign, blanks around the digits); the runs
  below only read \<open>3\<close>.\<close>

definition sample_int :: "string \<Rightarrow> int option" where
  "sample_int s =
     (let t = filter (\<lambda>c. c \<noteq> CHR 0x0A) s
      in if t \<noteq> [] \<and> list_all (\<lambda>c. c \<in> set ''0123456789'') t
         then Some (foldl (\<lambda>n c. 10 * n + (of_char c - 48)) 0 t)
         else None)"

definition sample_env :: collaborators where
  "sample_env =
     \<lparr>confirmChecksum = sample_checksum,
      parseDisplay = sample_decoder,
      parseLEDs = sample_decoder,
      FRAME_TYPE_KEEPALIVE = [0x4B, 0x41],
      FRAME_TYPE_DISPLAY = [0x01, 0x03],
      FRAME_TYPE_LEDS = [0x01, 0x02],
      FRAME_TYPE_DISPLAY_SERVICE = [0x02, 0x03],
      FRAME_TYPE_SERVICE_MODE = [0x03, 0x03],
      button_toggle = [''pool'', ''spa'', ''spillover'', ''filter'', ''lights'', ''service''],
      buttons_menu = [''menu'', ''left'', ''right'', ''plus'', ''minus''],
      py_int = sample_int,
      encode_command = (\<lambda>commandID. DLE # STX # map of_char commandID @ [DLE, ETX]),
      max_attempts = 2\<rparr>"

text \<open>A keep-alive frame and a display frame with valid checksums, and a display frame
  whose checksum field is wrong.\<close>

definition keepalive_frame :: bytes where
  "keepalive_frame = [0x10, 0x02, 0x4B, 0x41, 0x00, 0x8C, 0x10, 0x03]"

definition display_frame :: bytes where
  "display_frame = [0x10, 0x02, 0x01, 0x03, 0x41, 0x00, 0x45, 0x10, 0x03]"

definition corrupt_frame :: bytes where
  "corrupt_frame = [0x10, 0x02, 0x01, 0x03, 0x41, 0x00, 0x46, 0x10, 0x03]"

definition sample_model :: pool_model where
  "sample_model =
     \<lparr>states = (\<lambda>name. if name = ''pool'' then ''ON''
                       else if name = ''service'' then ''BLINK''
                       else if name = ''filter'' then ''INIT''
                       else ''OFF''),
      timestamp = 5, version = 3, model_sending_message = False,
      flag_data_changed = False\<rparr>"

definition sample_serial :: serial_handler where
  "sample_serial =
     \<lparr>pending = [], buffer = [], buffer_full = False, looking_for_start = True,
      ready_to_send = False, sent = []\<rparr>"

definition sample_handler :: command_handler where
  "sample_handler =
     \<lparr>parameter = [], target_state = [], confirm = True, sending_message = False,
      keep_alive_count = 0, last_model_timestamp_seen = 0, full_command = [],
      attempts_remaining = 0\<rparr>"

section \<open>Frames as the dispatcher sees them\<close>

text \<open>The three tests of lines 75 to 89 on a destuffed frame.\<close>

definition frame_accepted :: "collaborators \<Rightarrow> bytes \<Rightarrow> bool" where
  "frame_accepted env frame =
     (\<not> bytes_in [0x10, 0x02] (slice_between 2 2 frame)
      \<and> \<not> bytes_in [0x10, 0x03] (slice_between 2 2 frame)
      \<and> confirmChecksum env frame)"

text \<open>A raw frame that passes the tests and carries the keep-alive type code, and one that
  passes them and carries another type code (line 96).\<close>

definition is_keepalive :: "collaborators \<Rightarrow> bytes \<Rightarrow> bool" where
  "is_keepalive env raw =
     (frame_accepted env (replace_DLE_NUL raw)
      \<and> take 2 (drop 2 (replace_DLE_NUL raw)) = FRAME_TYPE_KEEPALIVE env)"

definition is_other :: "collaborators \<Rightarrow> bytes \<Rightarrow> bool" where
  "is_other env raw =
     (frame_accepted env (replace_DLE_NUL raw)
      \<and> take 2 (drop 2 (replace_DLE_NUL raw)) \<noteq> FRAME_TYPE_KEEPALIVE env)"

text \<open>The framer hands a complete frame over (the state after lines 58 and 59) and
  \<open>parseBuffer\<close> processes it.\<close>

definition on_frame :: "collaborators \<Rightarrow> bytes \<Rightarrow> system \<Rightarrow> system" where
  "on_frame env raw st =
     (case st of (poolModel, serialHandler, commandHandler) \<Rightarrow>
        snd (parseBuffer env
               (poolModel,
                serialHandler\<lparr>buffer := raw, buffer_full := True, looking_for_start := True\<rparr>,
                commandHandler)))"

text \<open>The parts of the system.\<close>

definition model_of :: "system \<Rightarrow> pool_model" where
  "model_of st = fst st"

definition serial_of :: "system \<Rightarrow> serial_handler" where
  "serial_of st = fst (snd st)"

definition handler_of :: "system \<Rightarrow> command_handler" where
  "handler_of st = snd (snd st)"

section \<open>The main loop\<close>

text \<open>\<open>sendModel\<close>, lines 266 to 274. The emission to the front end is outside the
  model; the flag is cleared.\<close>

definition sendModel :: "pool_model \<Rightarrow> pool_model" where
  "sendModel poolModel =
     (if flag_data_changed poolModel then poolModel\<lparr>flag_data_changed := False\<rparr>
      else poolModel)"

text \<open>One iteration of the loop of \<open>main\<close>, lines 286 to 304, on the queue file and the
  three objects; \<open>now\<close> is the clock of that iteration. An IndexError of \<open>readSerialBus\<close>
  ends the loop.\<close>

definition main_iteration ::
  "collaborators \<Rightarrow> real \<Rightarrow> string option \<times> system \<Rightarrow> error + string option \<times> system" where
  "main_iteration env now qst =
    (case qst of (queue, poolModel, serialHandler, commandHandler) \<Rightarrow>
      (case readSerialBus serialHandler of
         Inl e \<Rightarrow> Inl e
       | Inr sh1 \<Rightarrow>
           (case checkCommand now (snd (parseBuffer env (poolModel, sh1, commandHandler))) of
              (pm3, sh3, ch3) \<Rightarrow> Inr (getCommand env queue (sendModel pm3, sh3, ch3)))))"

text \<open>The loop over a list of iterations. Each iteration comes with the bytes that arrived
  on the bus since the one before and with its clock.\<close>

fun main_loop ::
  "collaborators \<Rightarrow> (bytes \<times> real) list \<Rightarrow> string option \<times> system
     \<Rightarrow> error + string option \<times> system" where
  "main_loop env [] qst = Inr qst"
| "main_loop env ((arrived, now) # rest) qst =
     (case qst of (queue, poolModel, serialHandler, commandHandler) \<Rightarrow>
        (case main_iteration env now
                (queue, poolModel,
                 serialHandler\<lparr>pending := pending serialHandler @ arrived\<rparr>,
                 commandHandler) of
           Inl e \<Rightarrow> Inl e
         | Inr qst1 \<Rightarrow> main_loop env rest qst1))"

text \<open>The models that \<open>checkCommand\<close> sees in the iterations of the main loop: in each
  iteration, the model as \<open>parseBuffer\<close> leaves it.\<close>

fun observed_models ::
  "collaborators \<Rightarrow> (bytes \<times> real) list \<Rightarrow> string option \<times> system \<Rightarrow> pool_model list" where
  "observed_models env [] qst = []"
| "observed_models env ((arrived, now) # rest) qst =
     (case qst of (queue, poolModel, serialHandler, commandHandler) \<Rightarrow>
        (case readSerialBus (serialHandler\<lparr>pending := pending serialHandler @ arrived\<rparr>) of
           Inl e \<Rightarrow> []
         | Inr sh1 \<Rightarrow>
             model_of (snd (parseBuffer env (poolModel, sh1, commandHandler)))
             # (case main_iteration env now
                        (queue, poolModel,
                         serialHandler\<lparr>pending := pending serialHandler @ arrived\<rparr>,
                         commandHandler) of
                  Inl e \<Rightarrow> []
                | Inr qst1 \<Rightarrow> observed_models env rest qst1)))"

text \<open>The attempt budget of a command in flight: transmissions made, attempts left and the
  transmission that is armed add up to \<open>bound\<close>; once the command is dropped, \<open>bound\<close>
  transmissions were made.\<close>

definition budget_inv :: "nat \<Rightarrow> string \<Rightarrow> string \<Rightarrow> system \<Rightarrow> bool" where
  "budget_inv bound p t st =
    (case st of (pm, sh, ch) \<Rightarrow>
       parameter ch = p \<and> target_state ch = t \<and> confirm ch
     \<and> (if sending_message ch
         then length (sent sh) + attempts_remaining ch + (if ready_to_send sh then 1 else 0)
                = bound
         else \<not> ready_to_send sh \<and> length (sent sh) = bound))"

text \<open>The iterations that take one frame from the bus: the bytes arrive together, the
  first iteration reads the start delimiter and each further iteration reads one byte.\<close>

definition feed :: "bytes \<Rightarrow> real \<Rightarrow> (bytes \<times> real) list" where
  "feed frame now = (frame, now) # replicate (length frame - 2) ([], now)"

text \<open>A raw frame as the framer completes it: it opens with DLE STX, closes with DLE ETX,
  and no earlier ETX follows a DLE.\<close>

fun no_early_end :: "byte \<Rightarrow> bytes \<Rightarrow> bool" where
  "no_early_end prev [] = True"
| "no_early_end prev (b # bs) = (\<not> (b = ETX \<and> prev = DLE) \<and> no_early_end b bs)"

definition framed :: "bytes \<Rightarrow> bool" where
  "framed raw =
     (4 \<le> length raw \<and> take 2 raw = [DLE, STX]
      \<and> drop (length raw - 2) raw = [DLE, ETX]
      \<and> no_early_end STX (take (length raw - 3) (drop 2 raw)))"

text \<open>What the iteration that completes the frame \<open>raw\<close> does after \<open>readSerialBus\<close>:
  \<open>parseBuffer\<close>, \<open>checkCommand\<close> and \<open>sendModel\<close>.\<close>

definition deliver :: "collaborators \<Rightarrow> real \<Rightarrow> bytes \<Rightarrow> system \<Rightarrow> system" where
  "deliver env now raw st =
     (case checkCommand now (on_frame env raw st) of
        (pm3, sh3, ch3) \<Rightarrow> (sendModel pm3, sh3, ch3))"

text \<open>A state in which \<open>checkCommand\<close> returns at once: no command is in flight, or the
  command is ready to send, or the model is older than the recorded timestamp.\<close>

definition quiet :: "system \<Rightarrow> bool" where
  "quiet st =
     (case st of (pm, sh, ch) \<Rightarrow>
        \<not> sending_message ch \<or> ready_to_send sh
        \<or> timestamp pm < last_model_timestamp_seen ch)"

text \<open>A command that requires confirmation is in flight and waits for a state update; the
  framer is between two frames.\<close>

definition in_flight :: "system \<Rightarrow> bool" where
  "in_flight st =
     (case st of (pm, sh, ch) \<Rightarrow>
        sending_message ch \<and> confirm ch \<and> \<not> ready_to_send sh
        \<and> timestamp pm < last_model_timestamp_seen ch
        \<and> pending sh = [] \<and> buffer sh = [] \<and> \<not> buffer_full sh
        \<and> looking_for_start sh)"

text \<open>One retry round on the bus: a frame of another type that brings a state update, then
  two keep-alive frames, all under the clock \<open>now\<close>. \<open>round_ticks\<close> are the iterations
  of the main loop that take the three frames, \<open>round_result\<close> is the state after the
  three completing iterations.\<close>

type_synonym retry_round = "bytes \<times> real \<times> bytes \<times> bytes"

definition round_ticks :: "retry_round \<Rightarrow> (bytes \<times> real) list" where
  "round_ticks r = (case r of (x, now, k1, k2) \<Rightarrow> feed x now @ feed k1 now @ feed k2 now)"

definition round_result :: "collaborators \<Rightarrow> retry_round \<Rightarrow> system \<Rightarrow> system" where
  "round_result env r st =
     (case r of (x, now, k1, k2) \<Rightarrow>
        (case st of (pm, sh, ch) \<Rightarrow>
           deliver env now k2 (deliver env now k1 (deliver env now x (sendModel pm, sh, ch)))))"

fun rounds_result :: "collaborators \<Rightarrow> retry_round list \<Rightarrow> system \<Rightarrow> system" where
  "rounds_result env [] st = st"
| "rounds_result env (r # rs) st = rounds_result env rs (round_result env r st)"

text \<open>The state update that the frame \<open>x\<close> brings is observed unmatched: the model it
  leaves is not older than the recorded timestamp, it is older than the clock, and the
  target parameter does not have the desired value.\<close>

definition update_unmatched :: "collaborators \<Rightarrow> bytes \<Rightarrow> real \<Rightarrow> system \<Rightarrow> bool" where
  "update_unmatched env x now st =
     (case st of (pm, sh, ch) \<Rightarrow>
        framed x \<and> is_other env x
        \<and> last_model_timestamp_seen ch
             \<le> timestamp (model_of (on_frame env x (sendModel pm, sh, ch)))
        \<and> timestamp (model_of (on_frame env x (sendModel pm, sh, ch))) < now
        \<and> getParameterState (model_of (on_frame env x (sendModel pm, sh, ch))) (parameter ch)
             \<noteq> target_state ch)"

fun rounds_unmatched :: "collaborators \<Rightarrow> retry_round list \<Rightarrow> system \<Rightarrow> bool" where
  "rounds_unmatched env [] st = True"
| "rounds_unmatched env (r # rs) st =
     (case r of (x, now, k1, k2) \<Rightarrow>
        update_unmatched env x now st
        \<and> framed k1 \<and> is_keepalive env k1 \<and> framed k2 \<and> is_keepalive env k2
        \<and> rounds_unmatched env rs (round_result env r st))"

text \<open>The sample system with the command \<open>pool\<close> in flight, accepted at clock 11/2 with a
  budget of two attempts, and two retry rounds.\<close>

definition sample_in_flight :: system where
  "sample_in_flight =
     (sample_model\<lparr>model_sending_message := True\<rparr>, sample_serial,
      (initiateSend sample_env sample_handler ''pool'' ''OFF'' True)
        \<lparr>last_model_timestamp_seen := 11 / 2\<rparr>)"

definition sample_rounds :: "retry_round list" where
  "sample_rounds =
     [(display_frame, 13 / 2, keepalive_frame, keepalive_frame),
      (display_frame, 15 / 2, keepalive_frame, keepalive_frame)]"

section \<open>Properties of the byte framer\<close>

lemma readSerialBus_cases:
  assumes "readSerialBus sh = Inr sh'"
  shows "pending sh' = pending sh
       \<or> pending sh' = drop 1 (pending sh)
       \<or> (looking_for_start sh \<and> take 1 (pending sh) = [DLE]
            \<and> pending sh' = drop 2 (pending sh))"
  using assms
  by (auto simp: readSerialBus_def in_waiting_def read_def Let_def
           split: if_splits list.splits prod.splits)

text \<open>Claim C3, as amended. One call of \<open>readSerialBus\<close> takes at most one byte from the
  input, with the exception that the docstring names: while seeking the start delimiter, a
  first byte DLE makes the call read a second byte, so that it takes two bytes whenever a
  second byte is pending (a DLE that is pending alone is taken alone). In every other case
  with input pending and no complete frame waiting the call takes exactly one byte; while
  accumulating a frame it never takes more than one.\<close>

theorem readSerialBus_consumes:
  "(readSerialBus sh = Inr sh' \<longrightarrow>
      (pending sh' = pending sh
       \<or> pending sh' = drop 1 (pending sh)
       \<or> (looking_for_start sh \<and> take 1 (pending sh) = [DLE]
            \<and> pending sh' = drop 2 (pending sh)))
      \<and> (\<not> looking_for_start sh \<longrightarrow>
            pending sh' = pending sh \<or> pending sh' = drop 1 (pending sh)))
   \<and> (\<not> buffer_full sh \<and> looking_for_start sh \<and> pending sh = DLE # b # rest \<longrightarrow>
        (\<exists>sh2. readSerialBus sh = Inr sh2 \<and> pending sh2 = rest
               \<and> length (pending sh) = length (pending sh2) + 2))
   \<and> (\<not> buffer_full sh \<and> looking_for_start sh \<and> pending sh = [DLE] \<longrightarrow>
        (\<exists>sh2. readSerialBus sh = Inr sh2 \<and> pending sh2 = []))
   \<and> (\<not> buffer_full sh \<and> pending sh = c # rest \<and> (c \<noteq> DLE \<or> \<not> looking_for_start sh)
        \<and> readSerialBus sh = Inr sh' \<longrightarrow> pending sh' = rest)"
proof (intro conjI impI)
  assume r: "readSerialBus sh = Inr sh'"
  from readSerialBus_cases [OF r]
  show "pending sh' = pending sh
       \<or> pending sh' = drop 1 (pending sh)
       \<or> (looking_for_start sh \<and> take 1 (pending sh) = [DLE]
            \<and> pending sh' = drop 2 (pending sh))" .
  assume "\<not> looking_for_start sh"
  with readSerialBus_cases [OF r]
  show "pending sh' = pending sh \<or> pending sh' = drop 1 (pending sh)"
    by auto
next
  assume "\<not> buffer_full sh \<and> looking_for_start sh \<and> pending sh = DLE # b # rest"
  then show "\<exists>sh2. readSerialBus sh = Inr sh2 \<and> pending sh2 = rest
                 \<and> length (pending sh) = length (pending sh2) + 2"
    by (simp add: readSerialBus_def in_waiting_def read_def)
next
  assume "\<not> buffer_full sh \<and> looking_for_start sh \<and> pending sh = [DLE]"
  then show "\<exists>sh2. readSerialBus sh = Inr sh2 \<and> pending sh2 = []"
    by (simp add: readSerialBus_def in_waiting_def read_def)
next
  assume "\<not> buffer_full sh \<and> pending sh = c # rest \<and> (c \<noteq> DLE \<or> \<not> looking_for_start sh)
        \<and> readSerialBus sh = Inr sh'"
  then show "pending sh' = rest"
    by (auto simp: readSerialBus_def in_waiting_def read_def Let_def split: if_splits)
qed

theorem readSerialBus_consumes_witness:
  "readSerialBus \<lparr>pending = [0x10, 0x02, 0x4B], buffer = [], buffer_full = False,
                   looking_for_start = True, ready_to_send = False, sent = []\<rparr>
     = Inr \<lparr>pending = [0x4B], buffer = [0x10, 0x02], buffer_full = False,
            looking_for_start = False, ready_to_send = False, sent = []\<rparr>
   \<and> readSerialBus \<lparr>pending = [0x4B, 0x41], buffer = [0x10, 0x02], buffer_full = False,
                     looking_for_start = False, ready_to_send = False, sent = []\<rparr>
     = Inr \<lparr>pending = [0x41], buffer = [0x10, 0x02, 0x4B], buffer_full = False,
            looking_for_start = False, ready_to_send = False, sent = []\<rparr>
   \<and> readSerialBus \<lparr>pending = [0x10], buffer = [], buffer_full = False,
                     looking_for_start = True, ready_to_send = False, sent = []\<rparr>
     = Inr \<lparr>pending = [], buffer = [], buffer_full = False,
            looking_for_start = True, ready_to_send = False, sent = []\<rparr>"
proof -
  let ?seek = "\<lparr>pending = [0x10, 0x02, 0x4B], buffer = [], buffer_full = False,
                looking_for_start = True, ready_to_send = False, sent = []\<rparr>"
  let ?acc = "\<lparr>pending = [0x4B, 0x41], buffer = [0x10, 0x02], buffer_full = False,
               looking_for_start = False, ready_to_send = False, sent = []\<rparr>"
  let ?acc' = "\<lparr>pending = [0x41], buffer = [0x10, 0x02, 0x4B], buffer_full = False,
                looking_for_start = False, ready_to_send = False, sent = []\<rparr>"
  let ?lone = "\<lparr>pending = [0x10], buffer = [], buffer_full = False,
                looking_for_start = True, ready_to_send = False, sent = []\<rparr>"
  have run: "readSerialBus ?acc = Inr ?acc'"
    by (simp add: readSerialBus_def in_waiting_def read_def ETX_def)
  have s: "\<not> buffer_full ?seek \<and> looking_for_start ?seek \<and> pending ?seek = DLE # 0x02 # [0x4B]"
    by (simp add: DLE_def)
  have l: "\<not> buffer_full ?lone \<and> looking_for_start ?lone \<and> pending ?lone = [DLE]"
    by (simp add: DLE_def)
  from readSerialBus_consumes [where sh = ?seek and b = "0x02" and rest = "[0x4B]"] s
  obtain sh2 where two: "readSerialBus ?seek = Inr sh2" "pending sh2 = [0x4B]"
    by blast
  from readSerialBus_consumes [where sh = ?acc and sh' = ?acc' and c = "0x4B"
                                    and rest = "[0x41]"] run
  have one: "pending ?acc' = [0x41]"
    by simp
  from readSerialBus_consumes [where sh = ?lone] l
  obtain sh3 where alone: "readSerialBus ?lone = Inr sh3" "pending sh3 = []"
    by blast
  have e1: "readSerialBus ?seek
              = Inr \<lparr>pending = [0x4B], buffer = [0x10, 0x02], buffer_full = False,
                     looking_for_start = False, ready_to_send = False, sent = []\<rparr>"
    by (simp add: readSerialBus_def in_waiting_def read_def DLE_def STX_def)
  have e3: "readSerialBus ?lone
              = Inr \<lparr>pending = [], buffer = [], buffer_full = False,
                     looking_for_start = True, ready_to_send = False, sent = []\<rparr>"
    by (simp add: readSerialBus_def in_waiting_def read_def DLE_def STX_def)
  from two one alone show ?thesis
    by (simp only: e1 run e3 simp_thms)
qed

text \<open>Claim C3, as stated, fails: seeking the start delimiter, a call that finds DLE STX at
  the head of the input takes both bytes.\<close>

theorem readSerialBus_two_bytes_counterexample:
  "readSerialBus \<lparr>pending = [0x10, 0x02, 0x4B], buffer = [], buffer_full = False,
                   looking_for_start = True, ready_to_send = False, sent = []\<rparr>
     = Inr \<lparr>pending = [0x4B], buffer = [0x10, 0x02], buffer_full = False,
            looking_for_start = False, ready_to_send = False, sent = []\<rparr>
   \<and> \<not> (length [0x10, 0x02, 0x4B :: byte] \<le> length [0x4B :: byte] + 1)"
  by (simp add: readSerialBus_def in_waiting_def read_def DLE_def STX_def)

text \<open>Claim C5, as amended. While a complete frame waits in the buffer, a call of
  \<open>readSerialBus\<close> changes nothing: the buffer and the flags stay as they are and no byte
  is read, so the bytes that arrived stay in the input and are neither appended nor lost.\<close>

theorem readSerialBus_full_unchanged:
  "buffer_full sh \<Longrightarrow> readSerialBus sh = Inr sh"
  by (simp add: readSerialBus_def)

theorem readSerialBus_full_unchanged_witness:
  "buffer_full \<lparr>pending = [0x41], buffer = [0x10, 0x02, 0x4B, 0x41, 0x00, 0x8C, 0x10, 0x03],
                buffer_full = True, looking_for_start = True, ready_to_send = False,
                sent = []\<rparr>
   \<and> readSerialBus \<lparr>pending = [0x41],
                     buffer = [0x10, 0x02, 0x4B, 0x41, 0x00, 0x8C, 0x10, 0x03],
                     buffer_full = True, looking_for_start = True, ready_to_send = False,
                     sent = []\<rparr>
     = Inr \<lparr>pending = [0x41], buffer = [0x10, 0x02, 0x4B, 0x41, 0x00, 0x8C, 0x10, 0x03],
            buffer_full = True, looking_for_start = True, ready_to_send = False,
            sent = []\<rparr>"
  using readSerialBus_full_unchanged
    [of "\<lparr>pending = [0x41], buffer = [0x10, 0x02, 0x4B, 0x41, 0x00, 0x8C, 0x10, 0x03],
          buffer_full = True, looking_for_start = True, ready_to_send = False,
          sent = []\<rparr>"]
  by simp

text \<open>Claim C5, as stated, fails: the byte that arrives while a complete frame waits is not
  dropped. The call returns before reading, and the byte is still the head of the input
  afterwards.\<close>

theorem readSerialBus_full_keeps_input_counterexample:
  "(case readSerialBus \<lparr>pending = [0x41],
                        buffer = [0x10, 0x02, 0x4B, 0x41, 0x00, 0x8C, 0x10, 0x03],
                        buffer_full = True, looking_for_start = True,
                        ready_to_send = False, sent = []\<rparr>
    of Inl e \<Rightarrow> False
     | Inr sh' \<Rightarrow> pending sh' = [0x41] \<and> pending sh' \<noteq> drop 1 [0x41])"
  by (simp add: readSerialBus_def in_waiting_def)

section \<open>Properties of destuffing\<close>

lemma replace_DLE_NUL_other:
  "x \<noteq> 0x10 \<Longrightarrow> replace_DLE_NUL (x # ys) = x # replace_DLE_NUL ys"
  by (cases ys) simp_all

text \<open>Claim C7. Destuffing undoes stuffing: for every byte sequence \<open>P\<close>, replacing each
  0x10 by 0x10 0x00 and then replacing each 0x10 0x00 by 0x10, left to right, gives \<open>P\<close>
  back.\<close>

theorem destuff_stuff:
  "replace_DLE_NUL (stuff P) = P"
  by (induction P) (simp_all add: replace_DLE_NUL_other)

section \<open>Properties of validation and dispatch\<close>

lemma parseBuffer_rejected:
  assumes "fst (parseBuffer env (pm, sh, ch)) = Rejected r"
  shows "parseBuffer env (pm, sh, ch) = (Rejected r, pm, reset sh, ch)"
  using assms by (auto simp: parseBuffer_def Let_def split: if_splits)

lemma on_frame_keepalive:
  assumes "is_keepalive env raw"
  shows "on_frame env raw (pm, sh, ch) =
     (if ready_to_send sh then
        (if keep_alive_count ch = 1
         then (pm, sh\<lparr>buffer := [], buffer_full := False, looking_for_start := True,
                     ready_to_send := False, sent := sent sh @ [full_command ch]\<rparr>,
               if confirm ch then ch else ch\<lparr>sending_message := False\<rparr>)
         else (pm, sh\<lparr>buffer := [], buffer_full := False, looking_for_start := True\<rparr>,
               ch\<lparr>keep_alive_count := 1\<rparr>))
      else (pm, sh\<lparr>buffer := [], buffer_full := False, looking_for_start := True\<rparr>,
            ch\<lparr>keep_alive_count := 0\<rparr>))"
  using assms
  by (simp add: on_frame_def parseBuffer_def is_keepalive_def frame_accepted_def Let_def
                reset_def send_def)

lemma on_frame_other:
  assumes "is_other env raw"
  shows "\<exists>pm'. on_frame env raw (pm, sh, ch) =
     (pm', sh\<lparr>buffer := [], buffer_full := False, looking_for_start := True\<rparr>,
      ch\<lparr>keep_alive_count := 0\<rparr>)"
  using assms
  by (simp add: on_frame_def parseBuffer_def is_other_def frame_accepted_def Let_def
                reset_def send_def)

lemma sample_keepalive: "is_keepalive sample_env keepalive_frame"
  by (simp add: is_keepalive_def frame_accepted_def sample_env_def keepalive_frame_def
                sample_checksum_def slice_between_def)

lemma sample_display: "is_other sample_env display_frame"
  by (simp add: is_other_def frame_accepted_def sample_env_def display_frame_def
                sample_checksum_def slice_between_def)

lemma sample_corrupt:
  "fst (parseBuffer sample_env
          (pm, sh\<lparr>buffer := corrupt_frame, buffer_full := True\<rparr>, ch))
     = Rejected ChecksumMismatch"
  by (simp add: parseBuffer_def sample_env_def corrupt_frame_def sample_checksum_def
                slice_between_def)

text \<open>Claim C6. A complete frame whose destuffed interior (between the outer two-byte
  markers) contains 0x10 0x02 or 0x10 0x03 is rejected as a spurious delimiter; a frame
  without such a sequence whose checksum test fails is rejected as a checksum mismatch; a
  frame that passes both is dispatched. Every rejection returns the model and the command
  handler as they were and resets the framer: the buffer is empty, the framer seeks the
  start, and no frame is marked complete.\<close>

theorem parseBuffer_rejects:
  assumes "buffer_full sh"
  shows "(bytes_in [0x10, 0x02] (slice_between 2 2 (replace_DLE_NUL (buffer sh)))
          \<or> bytes_in [0x10, 0x03] (slice_between 2 2 (replace_DLE_NUL (buffer sh)))
          \<longrightarrow> parseBuffer env (pm, sh, ch) = (Rejected SpuriousDelimiter, pm, reset sh, ch))
       \<and> (\<not> bytes_in [0x10, 0x02] (slice_between 2 2 (replace_DLE_NUL (buffer sh)))
          \<and> \<not> bytes_in [0x10, 0x03] (slice_between 2 2 (replace_DLE_NUL (buffer sh)))
          \<and> \<not> confirmChecksum env (replace_DLE_NUL (buffer sh))
          \<longrightarrow> parseBuffer env (pm, sh, ch) = (Rejected ChecksumMismatch, pm, reset sh, ch))
       \<and> (frame_accepted env (replace_DLE_NUL (buffer sh))
          \<longrightarrow> fst (parseBuffer env (pm, sh, ch)) = Dispatched)
       \<and> buffer (reset sh) = [] \<and> looking_for_start (reset sh) \<and> \<not> buffer_full (reset sh)"
  using assms
  by (simp add: parseBuffer_def frame_accepted_def Let_def reset_def)

theorem parseBuffer_rejects_witness:
  "parseBuffer sample_env
     (sample_model, sample_serial\<lparr>buffer := corrupt_frame, buffer_full := True\<rparr>,
      sample_handler)
     = (Rejected ChecksumMismatch, sample_model, sample_serial, sample_handler)
   \<and> parseBuffer sample_env
       (sample_model,
        sample_serial\<lparr>buffer := [0x10, 0x02, 0x01, 0x03, 0x10, 0x00, 0x02, 0x00, 0x16,
                                0x10, 0x03],
                      buffer_full := True\<rparr>,
        sample_handler)
     = (Rejected SpuriousDelimiter, sample_model, sample_serial, sample_handler)"
proof -
  have full: "buffer_full (sample_serial\<lparr>buffer := b, buffer_full := True\<rparr>)" for b
    by simp
  have r: "reset (sample_serial\<lparr>buffer := b, buffer_full := True\<rparr>) = sample_serial" for b
    by (simp add: reset_def sample_serial_def)
  from parseBuffer_rejects [OF full, of corrupt_frame sample_env sample_model sample_handler]
       parseBuffer_rejects [OF full,
         of "[0x10, 0x02, 0x01, 0x03, 0x10, 0x00, 0x02, 0x00, 0x16, 0x10, 0x03]"
            sample_env sample_model sample_handler]
  show ?thesis
    by (simp add: r sample_env_def corrupt_frame_def sample_checksum_def slice_between_def)
qed

text \<open>Claim C10. A frame that validation rejects leaves the handshake as it was: the
  command handler, with its heartbeat count, is returned unchanged, nothing is added to
  the transmissions, the ready flag and the model stay as they are, and only the framer is
  reset. A valid frame of another type than keep-alive sets the count to zero; a corrupted
  one does not.\<close>

theorem rejected_frame_leaves_handshake:
  assumes "fst (parseBuffer env (pm, sh, ch)) = Rejected r"
  shows "snd (parseBuffer env (pm, sh, ch))
           = (pm, sh\<lparr>buffer := [], buffer_full := False, looking_for_start := True\<rparr>, ch)
       \<and> keep_alive_count (handler_of (snd (parseBuffer env (pm, sh, ch))))
           = keep_alive_count ch
       \<and> sent (serial_of (snd (parseBuffer env (pm, sh, ch)))) = sent sh
       \<and> ready_to_send (serial_of (snd (parseBuffer env (pm, sh, ch)))) = ready_to_send sh
       \<and> model_of (snd (parseBuffer env (pm, sh, ch))) = pm"
  using parseBuffer_rejected [OF assms]
  by (simp add: reset_def handler_of_def serial_of_def model_of_def)

theorem rejected_frame_leaves_handshake_witness:
  "fst (parseBuffer sample_env
          (sample_model,
           sample_serial\<lparr>buffer := corrupt_frame, buffer_full := True, ready_to_send := True\<rparr>,
           sample_handler\<lparr>keep_alive_count := 1\<rparr>)) = Rejected ChecksumMismatch
   \<and> keep_alive_count (handler_of (snd (parseBuffer sample_env
          (sample_model,
           sample_serial\<lparr>buffer := corrupt_frame, buffer_full := True, ready_to_send := True\<rparr>,
           sample_handler\<lparr>keep_alive_count := 1\<rparr>)))) = 1
   \<and> sent (serial_of (snd (parseBuffer sample_env
          (sample_model,
           sample_serial\<lparr>buffer := corrupt_frame, buffer_full := True, ready_to_send := True\<rparr>,
           sample_handler\<lparr>keep_alive_count := 1\<rparr>)))) = []
   \<and> keep_alive_count (handler_of (on_frame sample_env display_frame
          (sample_model, sample_serial\<lparr>ready_to_send := True\<rparr>,
           sample_handler\<lparr>keep_alive_count := 1\<rparr>))) = 0"
proof -
  have rej: "fst (parseBuffer sample_env
          (sample_model,
           sample_serial\<lparr>buffer := corrupt_frame, buffer_full := True, ready_to_send := True\<rparr>,
           sample_handler\<lparr>keep_alive_count := 1\<rparr>)) = Rejected ChecksumMismatch"
    by (simp add: parseBuffer_def sample_env_def corrupt_frame_def sample_checksum_def
                  slice_between_def sample_serial_def)
  obtain pm' where other: "on_frame sample_env display_frame
          (sample_model, sample_serial\<lparr>ready_to_send := True\<rparr>,
           sample_handler\<lparr>keep_alive_count := 1\<rparr>)
        = (pm', sample_serial\<lparr>ready_to_send := True, buffer := [], buffer_full := False,
                               looking_for_start := True\<rparr>,
           sample_handler\<lparr>keep_alive_count := 1, keep_alive_count := 0\<rparr>)"
    using on_frame_other [OF sample_display] by blast
  from rejected_frame_leaves_handshake [OF rej] rej other show ?thesis
    by (simp add: handler_of_def serial_of_def sample_handler_def sample_serial_def)
qed

section \<open>Properties of the handshake\<close>

text \<open>Claim C2, as amended. While a command is transmitted and awaits confirmation
  (\<open>sending_message\<close> is set and \<open>ready_to_send\<close> is not), \<open>checkCommand\<close> compares the
  live value of the target parameter with the desired value exactly when the model's
  timestamp is greater than or equal to the recorded one. A model with a strictly older
  timestamp changes nothing: no comparison, no retry, no change of state. A model with an
  equal or newer timestamp confirms the command on a match and otherwise asks
  \<open>sendAttemptsRemain\<close> whether to arm a retry.\<close>

theorem checkCommand_transmitted:
  assumes "sending_message ch" and "\<not> ready_to_send sh"
  shows "(timestamp pm < last_model_timestamp_seen ch
            \<longrightarrow> checkCommand now (pm, sh, ch) = (pm, sh, ch))
       \<and> (last_model_timestamp_seen ch \<le> timestamp pm
            \<and> getParameterState pm (parameter ch) = target_state ch
            \<longrightarrow> checkCommand now (pm, sh, ch)
                 = (pm\<lparr>model_sending_message := False, flag_data_changed := True\<rparr>, sh,
                    ch\<lparr>sending_message := False\<rparr>))
       \<and> (last_model_timestamp_seen ch \<le> timestamp pm
            \<and> getParameterState pm (parameter ch) \<noteq> target_state ch
            \<longrightarrow> checkCommand now (pm, sh, ch)
                 = (if fst (sendAttemptsRemain ch)
                    then (pm, sh\<lparr>ready_to_send := True\<rparr>,
                          (snd (sendAttemptsRemain ch))\<lparr>last_model_timestamp_seen := now\<rparr>)
                    else (pm, sh, snd (sendAttemptsRemain ch))))"
  using assms by (simp add: checkCommand_def split: prod.splits)

theorem checkCommand_transmitted_witness:
  "checkCommand 9
     (sample_model, sample_serial,
      sample_handler\<lparr>parameter := ''pool'', target_state := ''ON'', sending_message := True,
                     last_model_timestamp_seen := 6\<rparr>)
     = (sample_model, sample_serial,
        sample_handler\<lparr>parameter := ''pool'', target_state := ''ON'', sending_message := True,
                       last_model_timestamp_seen := 6\<rparr>)
   \<and> checkCommand 9
       (sample_model, sample_serial,
        sample_handler\<lparr>parameter := ''pool'', target_state := ''ON'', sending_message := True,
                       last_model_timestamp_seen := 4\<rparr>)
     = (sample_model\<lparr>model_sending_message := False, flag_data_changed := True\<rparr>,
        sample_serial,
        sample_handler\<lparr>parameter := ''pool'', target_state := ''ON'', sending_message := False,
                       last_model_timestamp_seen := 4\<rparr>)
   \<and> checkCommand 9
       (sample_model, sample_serial,
        sample_handler\<lparr>parameter := ''pool'', target_state := ''OFF'', sending_message := True,
                       last_model_timestamp_seen := 4, attempts_remaining := 1\<rparr>)
     = (sample_model, sample_serial\<lparr>ready_to_send := True\<rparr>,
        sample_handler\<lparr>parameter := ''pool'', target_state := ''OFF'', sending_message := True,
                       last_model_timestamp_seen := 9, attempts_remaining := 0\<rparr>)"
proof -
  let ?h6 = "sample_handler\<lparr>parameter := ''pool'', target_state := ''ON'',
               sending_message := True, last_model_timestamp_seen := 6\<rparr>"
  let ?h4 = "sample_handler\<lparr>parameter := ''pool'', target_state := ''ON'',
               sending_message := True, last_model_timestamp_seen := 4\<rparr>"
  let ?h1 = "sample_handler\<lparr>parameter := ''pool'', target_state := ''OFF'',
               sending_message := True, last_model_timestamp_seen := 4,
               attempts_remaining := 1\<rparr>"
  have s6: "sending_message ?h6" and s4: "sending_message ?h4" and s1: "sending_message ?h1"
    by simp_all
  have r: "\<not> ready_to_send sample_serial"
    by (simp add: sample_serial_def)
  from checkCommand_transmitted [OF s6 r, where pm = sample_model and now = 9]
       checkCommand_transmitted [OF s4 r, where pm = sample_model and now = 9]
       checkCommand_transmitted [OF s1 r, where pm = sample_model and now = 9]
  show ?thesis
    by (simp add: sample_model_def sample_handler_def getParameterState_def
                  sendAttemptsRemain_def)
qed

text \<open>Claim C2, as stated, fails: a model whose timestamp equals the recorded one is
  compared, and on a match the command is confirmed.\<close>

theorem checkCommand_equal_timestamp_counterexample:
  "timestamp sample_model
     = last_model_timestamp_seen
         (sample_handler\<lparr>parameter := ''pool'', target_state := ''ON'',
                         sending_message := True, last_model_timestamp_seen := 5\<rparr>)
   \<and> checkCommand 9
       (sample_model, sample_serial,
        sample_handler\<lparr>parameter := ''pool'', target_state := ''ON'', sending_message := True,
                       last_model_timestamp_seen := 5\<rparr>)
     = (sample_model\<lparr>model_sending_message := False, flag_data_changed := True\<rparr>,
        sample_serial,
        sample_handler\<lparr>parameter := ''pool'', target_state := ''ON'', sending_message := False,
                       last_model_timestamp_seen := 5\<rparr>)
   \<and> sending_message
       (handler_of (checkCommand 9
          (sample_model, sample_serial,
           sample_handler\<lparr>parameter := ''pool'', target_state := ''ON'',
                          sending_message := True, last_model_timestamp_seen := 5\<rparr>)))
     \<noteq> sending_message
         (sample_handler\<lparr>parameter := ''pool'', target_state := ''ON'',
                         sending_message := True, last_model_timestamp_seen := 5\<rparr>)"
  by (simp add: checkCommand_def sample_model_def sample_serial_def getParameterState_def
                handler_of_def)

text \<open>The heartbeat rule for a command that becomes ready while the heartbeat count is
  not 1 (the count is 0 after every frame processed while no command was ready): nothing
  is transmitted on the first keep-alive frame; the command is transmitted, once, on the
  second consecutive keep-alive frame; and a frame of another type between the two sets the
  count to zero and transmits nothing, after which one keep-alive frame is not enough and
  the second consecutive one transmits.\<close>

lemma heartbeat_rule_from_zero:
  assumes "ready_to_send sh" and "keep_alive_count ch \<noteq> 1"
    and "is_keepalive env k1" and "is_keepalive env k2" and "is_keepalive env k3"
    and "is_other env x"
  shows "sent (serial_of (on_frame env k1 (pm, sh, ch))) = sent sh
       \<and> ready_to_send (serial_of (on_frame env k1 (pm, sh, ch)))
       \<and> sent (serial_of (on_frame env k2 (on_frame env k1 (pm, sh, ch))))
           = sent sh @ [full_command ch]
       \<and> \<not> ready_to_send (serial_of (on_frame env k2 (on_frame env k1 (pm, sh, ch))))
       \<and> keep_alive_count (handler_of (on_frame env x (on_frame env k1 (pm, sh, ch)))) = 0
       \<and> sent (serial_of (on_frame env x (on_frame env k1 (pm, sh, ch)))) = sent sh
       \<and> ready_to_send (serial_of (on_frame env x (on_frame env k1 (pm, sh, ch))))
       \<and> sent (serial_of (on_frame env k2 (on_frame env x (on_frame env k1 (pm, sh, ch)))))
           = sent sh
       \<and> sent (serial_of (on_frame env k3
                  (on_frame env k2 (on_frame env x (on_frame env k1 (pm, sh, ch))))))
           = sent sh @ [full_command ch]"
proof -
  let ?sh = "sh\<lparr>buffer := [], buffer_full := False, looking_for_start := True\<rparr>"
  have s1: "on_frame env k1 (pm, sh, ch) = (pm, ?sh, ch\<lparr>keep_alive_count := 1\<rparr>)"
    using assms(1,2) by (simp add: on_frame_keepalive [OF assms(3)])
  have s2: "on_frame env k2 (pm, ?sh, ch\<lparr>keep_alive_count := 1\<rparr>)
      = (pm, ?sh\<lparr>ready_to_send := False, sent := sent sh @ [full_command ch]\<rparr>,
         if confirm ch then ch\<lparr>keep_alive_count := 1\<rparr>
         else ch\<lparr>keep_alive_count := 1, sending_message := False\<rparr>)"
    using assms(1) by (simp add: on_frame_keepalive [OF assms(4)])
  obtain pm' where sx: "on_frame env x (pm, ?sh, ch\<lparr>keep_alive_count := 1\<rparr>)
      = (pm', ?sh, ch\<lparr>keep_alive_count := 0\<rparr>)"
    using on_frame_other [OF assms(6), of pm ?sh "ch\<lparr>keep_alive_count := 1\<rparr>"] by auto
  have sx2: "on_frame env k2 (pm', ?sh, ch\<lparr>keep_alive_count := 0\<rparr>)
      = (pm', ?sh, ch\<lparr>keep_alive_count := 1\<rparr>)"
    using assms(1) by (simp add: on_frame_keepalive [OF assms(4)])
  have sx3: "on_frame env k3 (pm', ?sh, ch\<lparr>keep_alive_count := 1\<rparr>)
      = (pm', ?sh\<lparr>ready_to_send := False, sent := sent sh @ [full_command ch]\<rparr>,
         if confirm ch then ch\<lparr>keep_alive_count := 1\<rparr>
         else ch\<lparr>keep_alive_count := 1, sending_message := False\<rparr>)"
    using assms(1) by (simp add: on_frame_keepalive [OF assms(5)])
  show ?thesis
    using assms(1) by (simp add: s1 s2 sx sx2 sx3 serial_of_def handler_of_def)
qed

section \<open>Properties of command acceptance\<close>

lemma getCommand_changes:
  assumes g: "getCommand env queue (pm, sh, ch) = (queue', pm', sh', ch')"
    and changed: "(pm', sh', ch') \<noteq> (pm, sh, ch)"
  shows "(\<exists>commandID.
            getParameterState pm commandID \<noteq> ''INIT''
          \<and> pm' = pm\<lparr>model_sending_message := True\<rparr> \<and> sh' = sh
          \<and> ch' = initiateSend env ch commandID
                     (if commandID = ''service'' then
                        (if getParameterState pm commandID = ''ON'' then ''BLINK''
                         else if getParameterState pm commandID = ''BLINK'' then ''OFF''
                         else ''ON'')
                      else (if getParameterState pm commandID = ''ON'' then ''OFF'' else ''ON''))
                     True)
       \<or> (\<exists>commandID.
            pm' = pm \<and> sh' = sh\<lparr>ready_to_send := True\<rparr>
          \<and> ch' = initiateSend env ch commandID ''NA'' False)"
proof -
  have same: "False" if "getCommand env queue (pm, sh, ch) = (q, pm, sh, ch)" for q
    using that g changed by simp
  have ns: "\<not> sending_message ch"
  proof
    assume "sending_message ch"
    then have "getCommand env queue (pm, sh, ch) = (queue, pm, sh, ch)"
      by (simp add: getCommand_def)
    then show False by (rule same)
  qed
  have q: "queue \<noteq> None"
  proof
    assume "queue = None"
    then have "getCommand env queue (pm, sh, ch) = (queue, pm, sh, ch)"
      by (simp add: getCommand_def ns)
    then show False by (rule same)
  qed
  then obtain content where c: "queue = Some content"
    by auto
  let ?fields = "split_comma (readline content)"
  let ?cid = "?fields ! 0"
  let ?cid1 = "if ?cid = ''pool-spa-spillover'' then
                 (if getParameterState pm ''pool'' = ''ON'' then ''pool''
                  else if getParameterState pm ''spa'' = ''ON'' then ''spa''
                  else ''spillover'')
               else ?cid"
  have t: "content \<noteq> []"
  proof
    assume "content = []"
    then have "getCommand env queue (pm, sh, ch) = (queue, pm, sh, ch)"
      by (simp add: getCommand_def ns c)
    then show False by (rule same)
  qed
  have len: "length ?fields = 2"
  proof (rule ccontr)
    assume "length ?fields \<noteq> 2"
    then have "getCommand env queue (pm, sh, ch) = (Some [], pm, sh, ch)"
      by (simp add: getCommand_def ns c t Let_def split del: if_split)
    then show False by (rule same)
  qed
  have "py_int env (?fields ! 1) \<noteq> None"
  proof
    assume "py_int env (?fields ! 1) = None"
    then have "getCommand env queue (pm, sh, ch) = (Some [], pm, sh, ch)"
      using len by (simp add: getCommand_def ns c t Let_def split del: if_split)
    then show False by (rule same)
  qed
  then obtain v where v: "py_int env (?fields ! 1) = Some v"
    by auto
  have ver: "v = version pm"
  proof (rule ccontr)
    assume "v \<noteq> version pm"
    then have "getCommand env queue (pm, sh, ch) = (Some [], pm, sh, ch)"
      using len v by (simp add: getCommand_def ns c t Let_def split del: if_split)
    then show False by (rule same)
  qed
  show ?thesis
  proof (cases "?cid \<in> set (button_toggle env) \<or> ?cid = ''pool-spa-spillover''")
    case True
    have init: "getParameterState pm ?cid1 \<noteq> ''INIT''"
    proof
      assume "getParameterState pm ?cid1 = ''INIT''"
      then have "getCommand env queue (pm, sh, ch) = (Some content, pm, sh, ch)"
        using True len v ver
        by (simp add: getCommand_def ns c t Let_def split del: if_split)
      then show False by (rule same)
    qed
    have eq: "getCommand env queue (pm, sh, ch) =
            (Some [], pm\<lparr>model_sending_message := True\<rparr>, sh,
             initiateSend env ch ?cid1
               (if ?cid1 = ''service'' then
                  (if getParameterState pm ?cid1 = ''ON'' then ''BLINK''
                   else if getParameterState pm ?cid1 = ''BLINK'' then ''OFF''
                   else ''ON'')
                else (if getParameterState pm ?cid1 = ''ON'' then ''OFF'' else ''ON''))
               True)"
      using True init len v ver
      by (simp add: getCommand_def ns c t Let_def split del: if_split)
    from g have r: "pm' = pm\<lparr>model_sending_message := True\<rparr>" "sh' = sh"
      "ch' = initiateSend env ch ?cid1
               (if ?cid1 = ''service'' then
                  (if getParameterState pm ?cid1 = ''ON'' then ''BLINK''
                   else if getParameterState pm ?cid1 = ''BLINK'' then ''OFF''
                   else ''ON'')
                else (if getParameterState pm ?cid1 = ''ON'' then ''OFF'' else ''ON''))
               True"
      unfolding eq by (simp_all split del: if_split)
    show ?thesis
      using init r by (intro disjI1 exI [where x = "?cid1"] conjI)
  next
    case False
    have menu: "?cid \<in> set (buttons_menu env)"
    proof (rule ccontr)
      assume "?cid \<notin> set (buttons_menu env)"
      then have "getCommand env queue (pm, sh, ch) = (Some [], pm, sh, ch)"
        using False len v ver
        by (simp add: getCommand_def ns c t Let_def split del: if_split)
      then show False by (rule same)
    qed
    have eq: "getCommand env queue (pm, sh, ch) =
            (Some [], pm, sh\<lparr>ready_to_send := True\<rparr>,
             initiateSend env ch ?cid ''NA'' False)"
      using False menu len v ver
      by (simp add: getCommand_def ns c t Let_def split del: if_split)
    from g have r: "pm' = pm" "sh' = sh\<lparr>ready_to_send := True\<rparr>"
      "ch' = initiateSend env ch ?cid ''NA'' False"
      unfolding eq by simp_all
    show ?thesis
      using r by (intro disjI2 exI [where x = "?cid"] conjI)
  qed
qed

lemma getCommand_accepts:
  assumes g: "getCommand env queue (pm, sh, ch) = (queue', pm', sh', ch')"
    and ns: "\<not> sending_message ch" and s': "sending_message ch'"
  shows "(\<exists>commandID.
            getParameterState pm commandID \<noteq> ''INIT''
          \<and> pm' = pm\<lparr>model_sending_message := True\<rparr> \<and> sh' = sh
          \<and> ch' = initiateSend env ch commandID
                     (if commandID = ''service'' then
                        (if getParameterState pm commandID = ''ON'' then ''BLINK''
                         else if getParameterState pm commandID = ''BLINK'' then ''OFF''
                         else ''ON'')
                      else (if getParameterState pm commandID = ''ON'' then ''OFF'' else ''ON''))
                     True)
       \<or> (\<exists>commandID.
            pm' = pm \<and> sh' = sh\<lparr>ready_to_send := True\<rparr>
          \<and> ch' = initiateSend env ch commandID ''NA'' False)"
proof -
  from ns s' have "ch' \<noteq> ch"
    by auto
  then have "(pm', sh', ch') \<noteq> (pm, sh, ch)"
    by simp
  with g show ?thesis
    by (rule getCommand_changes)
qed

lemma initiateSend_fields:
  "parameter (initiateSend env ch c d b) = c"
  "target_state (initiateSend env ch c d b) = d"
  "confirm (initiateSend env ch c d b) = b"
  "sending_message (initiateSend env ch c d b)"
  "keep_alive_count (initiateSend env ch c d b) = 0"
  "attempts_remaining (initiateSend env ch c d b) = max_attempts env"
  "full_command (initiateSend env ch c d b) = encode_command env c"
  by (simp_all add: initiateSend_def)

lemma parseBuffer_target_state:
  "target_state (handler_of (snd (parseBuffer env st))) = target_state (handler_of st)"
  by (cases st) (simp add: parseBuffer_def handler_of_def Let_def)

lemma checkCommand_target_state:
  "target_state (handler_of (checkCommand now st)) = target_state (handler_of st)"
  by (cases st)
     (simp add: checkCommand_def handler_of_def sendAttemptsRemain_def split: prod.splits)

lemma getCommand_in_flight:
  "sending_message (handler_of st) \<Longrightarrow> getCommand env queue st = (queue, st)"
  by (cases st) (simp add: getCommand_def handler_of_def)

text \<open>Claim C8. When \<open>getCommand\<close> accepts a command that requires confirmation, the
  desired value it stores is computed from the value of the target parameter observed in
  that call: for \<open>service\<close>, ON gives BLINK, BLINK gives OFF and any other value gives ON;
  for every other parameter, ON gives OFF and any other value gives ON. Afterwards the
  stored value is not recomputed: \<open>parseBuffer\<close> and \<open>checkCommand\<close> leave it as it is,
  and \<open>getCommand\<close> changes nothing while the command is in flight.\<close>

theorem desired_state_at_arm_time:
  assumes "getCommand env queue (pm, sh, ch) = (queue', pm', sh', ch')"
    and "\<not> sending_message ch" and "sending_message ch'" and "confirm ch'"
  shows "target_state ch' =
           (if parameter ch' = ''service'' then
              (if getParameterState pm ''service'' = ''ON'' then ''BLINK''
               else if getParameterState pm ''service'' = ''BLINK'' then ''OFF''
               else ''ON'')
            else (if getParameterState pm (parameter ch') = ''ON'' then ''OFF'' else ''ON''))
       \<and> target_state (handler_of (snd (parseBuffer env st))) = target_state (handler_of st)
       \<and> target_state (handler_of (checkCommand now st)) = target_state (handler_of st)
       \<and> (sending_message (handler_of st) \<longrightarrow> getCommand env q st = (q, st))"
proof -
  from getCommand_accepts [OF assms(1,2,3)] assms(4)
  obtain commandID where
    "ch' = initiateSend env ch commandID
             (if commandID = ''service'' then
                (if getParameterState pm commandID = ''ON'' then ''BLINK''
                 else if getParameterState pm commandID = ''BLINK'' then ''OFF''
                 else ''ON'')
              else (if getParameterState pm commandID = ''ON'' then ''OFF'' else ''ON''))
             True"
    by (auto simp: initiateSend_fields)
  then have "target_state ch' =
           (if parameter ch' = ''service'' then
              (if getParameterState pm ''service'' = ''ON'' then ''BLINK''
               else if getParameterState pm ''service'' = ''BLINK'' then ''OFF''
               else ''ON'')
            else (if getParameterState pm (parameter ch') = ''ON'' then ''OFF'' else ''ON''))"
    by (simp add: initiateSend_fields)
  then show ?thesis
    by (intro conjI impI getCommand_in_flight parseBuffer_target_state
              checkCommand_target_state)
qed

theorem desired_state_at_arm_time_witness:
  "getCommand sample_env (Some ''service,3'') (sample_model, sample_serial, sample_handler)
     = (Some [], sample_model\<lparr>model_sending_message := True\<rparr>, sample_serial,
        initiateSend sample_env sample_handler ''service'' ''OFF'' True)
   \<and> target_state (initiateSend sample_env sample_handler ''service'' ''OFF'' True) = ''OFF''
   \<and> getParameterState sample_model ''service'' = ''BLINK''
   \<and> target_state (handler_of (checkCommand 6
        (sample_model\<lparr>model_sending_message := True\<rparr>, sample_serial,
         initiateSend sample_env sample_handler ''service'' ''OFF'' True))) = ''OFF''"
proof -
  have g: "getCommand sample_env (Some ''service,3'')
             (sample_model, sample_serial, sample_handler)
     = (Some [], sample_model\<lparr>model_sending_message := True\<rparr>, sample_serial,
        initiateSend sample_env sample_handler ''service'' ''OFF'' True)"
    by (simp add: getCommand_def sample_model_def sample_handler_def sample_env_def
                  sample_int_def getParameterState_def Let_def)
  have n: "\<not> sending_message sample_handler"
    by (simp add: sample_handler_def)
  have s: "sending_message (initiateSend sample_env sample_handler ''service'' ''OFF'' True)"
    and c: "confirm (initiateSend sample_env sample_handler ''service'' ''OFF'' True)"
    by (simp_all add: initiateSend_fields)
  from desired_state_at_arm_time [OF g n s c, where now = 6 and q = None
         and st = "(sample_model\<lparr>model_sending_message := True\<rparr>, sample_serial,
                   initiateSend sample_env sample_handler ''service'' ''OFF'' True)"]
       g
  show ?thesis
    by (simp add: initiateSend_fields sample_model_def getParameterState_def handler_of_def)
qed

text \<open>Claim C4, as amended. When \<open>getCommand\<close> accepts a command that does not require
  confirmation, \<open>ready_to_send\<close> is set in the same call, without waiting for a new state
  of the model. The heartbeat rule still applies: the first keep-alive frame after the
  acceptance transmits nothing, and the second consecutive keep-alive frame transmits the
  command once. With that transmission the machine is idle: \<open>sending_message\<close> and
  \<open>ready_to_send\<close> are cleared, \<open>checkCommand\<close> changes nothing (no retry, no
  confirmation wait), and a further keep-alive frame transmits nothing.\<close>

theorem unconfirmed_command:
  assumes "getCommand env queue (pm, sh, ch) = (queue', pm', sh', ch')"
    and "\<not> sending_message ch" and "sending_message ch'" and "\<not> confirm ch'"
    and "is_keepalive env k1" and "is_keepalive env k2" and "is_keepalive env k3"
  shows "ready_to_send sh'
       \<and> sent (serial_of (on_frame env k1 (pm', sh', ch'))) = sent sh
       \<and> sent (serial_of (on_frame env k2 (on_frame env k1 (pm', sh', ch'))))
           = sent sh @ [full_command ch']
       \<and> \<not> sending_message (handler_of (on_frame env k2 (on_frame env k1 (pm', sh', ch'))))
       \<and> \<not> ready_to_send (serial_of (on_frame env k2 (on_frame env k1 (pm', sh', ch'))))
       \<and> checkCommand now (on_frame env k2 (on_frame env k1 (pm', sh', ch')))
           = on_frame env k2 (on_frame env k1 (pm', sh', ch'))
       \<and> sent (serial_of (on_frame env k3
                  (on_frame env k2 (on_frame env k1 (pm', sh', ch')))))
           = sent sh @ [full_command ch']"
proof -
  from getCommand_accepts [OF assms(1,2,3)] assms(4)
  obtain commandID where acc: "pm' = pm" "sh' = sh\<lparr>ready_to_send := True\<rparr>"
      "ch' = initiateSend env ch commandID ''NA'' False"
    by (auto simp: initiateSend_fields)
  have cnt: "keep_alive_count ch' = 0" and cf: "\<not> confirm ch'"
    using acc by (simp_all add: initiateSend_fields)
  let ?sh = "sh\<lparr>ready_to_send := True, buffer := [], buffer_full := False,
                  looking_for_start := True\<rparr>"
  have s1: "on_frame env k1 (pm, sh\<lparr>ready_to_send := True\<rparr>, ch')
      = (pm, ?sh, ch'\<lparr>keep_alive_count := 1\<rparr>)"
    using cnt by (simp add: on_frame_keepalive [OF assms(5)])
  let ?sh2 = "sh\<lparr>buffer := [], buffer_full := False, looking_for_start := True,
                   ready_to_send := False, sent := sent sh @ [full_command ch']\<rparr>"
  have s2: "on_frame env k2 (pm, ?sh, ch'\<lparr>keep_alive_count := 1\<rparr>)
      = (pm, ?sh2, ch'\<lparr>keep_alive_count := 1, sending_message := False\<rparr>)"
    using cf by (simp add: on_frame_keepalive [OF assms(6)])
  have s3: "on_frame env k3
              (pm, ?sh2, ch'\<lparr>keep_alive_count := 1, sending_message := False\<rparr>)
      = (pm, ?sh2, ch'\<lparr>keep_alive_count := 0, sending_message := False\<rparr>)"
    by (simp add: on_frame_keepalive [OF assms(7)])
  show ?thesis
    by (simp add: acc(1,2) s1 s2 s3 serial_of_def handler_of_def checkCommand_def)
qed

lemma sample_serial_fields:
  "sent sample_serial = []" "\<not> ready_to_send sample_serial"
  by (simp_all add: sample_serial_def)

lemma sample_menu_accepted:
  "getCommand sample_env (Some ''menu,3'') (sample_model, sample_serial, sample_handler)
     = (Some [], sample_model, sample_serial\<lparr>ready_to_send := True\<rparr>,
        initiateSend sample_env sample_handler ''menu'' ''NA'' False)"
  by (simp add: getCommand_def sample_model_def sample_handler_def sample_env_def
                sample_int_def getParameterState_def Let_def)

theorem unconfirmed_command_witness:
  "ready_to_send (sample_serial\<lparr>ready_to_send := True\<rparr>)
   \<and> sent (serial_of (on_frame sample_env keepalive_frame
            (on_frame sample_env keepalive_frame
               (sample_model, sample_serial\<lparr>ready_to_send := True\<rparr>,
                initiateSend sample_env sample_handler ''menu'' ''NA'' False))))
       = [encode_command sample_env ''menu'']
   \<and> \<not> sending_message (handler_of (on_frame sample_env keepalive_frame
            (on_frame sample_env keepalive_frame
               (sample_model, sample_serial\<lparr>ready_to_send := True\<rparr>,
                initiateSend sample_env sample_handler ''menu'' ''NA'' False))))"
proof -
  have n: "\<not> sending_message sample_handler"
    by (simp add: sample_handler_def)
  have s: "sending_message (initiateSend sample_env sample_handler ''menu'' ''NA'' False)"
    and c: "\<not> confirm (initiateSend sample_env sample_handler ''menu'' ''NA'' False)"
    by (simp_all add: initiateSend_fields)
  from unconfirmed_command [OF sample_menu_accepted n s c sample_keepalive sample_keepalive
                               sample_keepalive, where now = 6]
  show ?thesis
    by (simp add: initiateSend_fields sample_serial_fields)
qed

text \<open>Claim C4, as stated, fails: an accepted command that does not require confirmation
  is ready to send at once, but the first keep-alive frame after the acceptance does not
  transmit it; it waits for the heartbeat like any other command.\<close>

theorem unconfirmed_command_waits_counterexample:
  "getCommand sample_env (Some ''menu,3'') (sample_model, sample_serial, sample_handler)
     = (Some [], sample_model, sample_serial\<lparr>ready_to_send := True\<rparr>,
        initiateSend sample_env sample_handler ''menu'' ''NA'' False)
   \<and> \<not> confirm (initiateSend sample_env sample_handler ''menu'' ''NA'' False)
   \<and> sent (serial_of (on_frame sample_env keepalive_frame
            (sample_model, sample_serial\<lparr>ready_to_send := True\<rparr>,
             initiateSend sample_env sample_handler ''menu'' ''NA'' False))) = []
   \<and> ready_to_send (serial_of (on_frame sample_env keepalive_frame
            (sample_model, sample_serial\<lparr>ready_to_send := True\<rparr>,
             initiateSend sample_env sample_handler ''menu'' ''NA'' False)))"
  by (simp add: sample_menu_accepted initiateSend_fields serial_of_def
                on_frame_keepalive [OF sample_keepalive] sample_serial_fields)

section \<open>The heartbeat rule\<close>

lemma armed_count_zero:
  assumes "st = checkCommand now st0 \<or> st = snd (getCommand env queue st0)"
    and "\<not> ready_to_send (serial_of st0)" and "ready_to_send (serial_of st)"
  shows "keep_alive_count (handler_of st) = 0"
proof -
  obtain pm0 sh0 ch0 where st0: "st0 = (pm0, sh0, ch0)"
    by (cases st0) auto
  from assms(1) show ?thesis
  proof
    assume "st = checkCommand now st0"
    with assms(2,3) show ?thesis
      by (auto simp: st0 checkCommand_def sendAttemptsRemain_def serial_of_def handler_of_def
               split: if_splits)
  next
    assume g: "st = snd (getCommand env queue st0)"
    obtain queue' pm sh ch where r: "getCommand env queue (pm0, sh0, ch0) = (queue', pm, sh, ch)"
      by (cases "getCommand env queue (pm0, sh0, ch0)") auto
    with g have st: "st = (pm, sh, ch)"
      by (simp add: st0)
    from assms(2,3) have "sh \<noteq> sh0"
      by (auto simp: st st0 serial_of_def)
    then have "(pm, sh, ch) \<noteq> (pm0, sh0, ch0)"
      by simp
    from getCommand_changes [OF r this] \<open>sh \<noteq> sh0\<close>
    obtain commandID where "ch = initiateSend env ch0 commandID ''NA'' False"
      by auto
    then show ?thesis
      by (simp add: st handler_of_def initiateSend_fields)
  qed
qed

text \<open>Claim C1. A command is armed when \<open>checkCommand\<close> or \<open>getCommand\<close> sets
  \<open>ready_to_send\<close>. For every command so armed, nothing is transmitted on the first
  keep-alive frame processed after the arming; the command is transmitted, once, on the
  second consecutive keep-alive frame; and a frame of another type between the two sets
  the heartbeat count to zero and transmits nothing, after which one keep-alive frame is
  not enough and the second consecutive one transmits.\<close>

theorem heartbeat_rule:
  assumes "st = checkCommand now st0 \<or> st = snd (getCommand env queue st0)"
    and "\<not> ready_to_send (serial_of st0)" and "ready_to_send (serial_of st)"
    and "is_keepalive env k1" and "is_keepalive env k2" and "is_keepalive env k3"
    and "is_other env x"
  shows "sent (serial_of (on_frame env k1 st)) = sent (serial_of st)
       \<and> ready_to_send (serial_of (on_frame env k1 st))
       \<and> sent (serial_of (on_frame env k2 (on_frame env k1 st)))
           = sent (serial_of st) @ [full_command (handler_of st)]
       \<and> \<not> ready_to_send (serial_of (on_frame env k2 (on_frame env k1 st)))
       \<and> keep_alive_count (handler_of (on_frame env x (on_frame env k1 st))) = 0
       \<and> sent (serial_of (on_frame env x (on_frame env k1 st))) = sent (serial_of st)
       \<and> ready_to_send (serial_of (on_frame env x (on_frame env k1 st)))
       \<and> sent (serial_of (on_frame env k2 (on_frame env x (on_frame env k1 st))))
           = sent (serial_of st)
       \<and> sent (serial_of (on_frame env k3
                  (on_frame env k2 (on_frame env x (on_frame env k1 st)))))
           = sent (serial_of st) @ [full_command (handler_of st)]"
proof -
  obtain pm sh ch where st: "st = (pm, sh, ch)"
    by (cases st) auto
  from armed_count_zero [OF assms(1-3)] have c: "keep_alive_count ch \<noteq> 1"
    by (simp add: st handler_of_def)
  from assms(3) have r: "ready_to_send sh"
    by (simp add: st serial_of_def)
  from heartbeat_rule_from_zero [OF r c assms(4-7), of pm] show ?thesis
    by (simp add: st serial_of_def handler_of_def)
qed

lemma sample_pool_accepted:
  "getCommand sample_env (Some ''pool,3'') (sample_model, sample_serial, sample_handler)
     = (Some [], sample_model\<lparr>model_sending_message := True\<rparr>, sample_serial,
        initiateSend sample_env sample_handler ''pool'' ''OFF'' True)"
  by (simp add: getCommand_def sample_model_def sample_handler_def sample_env_def
                sample_int_def getParameterState_def Let_def)

lemma sample_pool_armed:
  "checkCommand 6 (sample_model\<lparr>model_sending_message := True\<rparr>, sample_serial,
                   initiateSend sample_env sample_handler ''pool'' ''OFF'' True)
     = (sample_model\<lparr>model_sending_message := True\<rparr>,
        sample_serial\<lparr>ready_to_send := True\<rparr>,
        (initiateSend sample_env sample_handler ''pool'' ''OFF'' True)
          \<lparr>attempts_remaining := 1, keep_alive_count := 0,
           last_model_timestamp_seen := 6\<rparr>)"
  by (simp add: checkCommand_def sendAttemptsRemain_def initiateSend_def sample_env_def
                sample_model_def sample_handler_def sample_serial_def getParameterState_def)

theorem heartbeat_rule_witness:
  "\<not> ready_to_send sample_serial
   \<and> ready_to_send (serial_of (checkCommand 6
        (sample_model\<lparr>model_sending_message := True\<rparr>, sample_serial,
         initiateSend sample_env sample_handler ''pool'' ''OFF'' True)))
   \<and> sent (serial_of (on_frame sample_env keepalive_frame (checkCommand 6
        (sample_model\<lparr>model_sending_message := True\<rparr>, sample_serial,
         initiateSend sample_env sample_handler ''pool'' ''OFF'' True)))) = []
   \<and> sent (serial_of (on_frame sample_env keepalive_frame
        (on_frame sample_env keepalive_frame (checkCommand 6
          (sample_model\<lparr>model_sending_message := True\<rparr>, sample_serial,
           initiateSend sample_env sample_handler ''pool'' ''OFF'' True)))))
       = [encode_command sample_env ''pool'']
   \<and> sent (serial_of (on_frame sample_env keepalive_frame
        (on_frame sample_env display_frame
          (on_frame sample_env keepalive_frame (checkCommand 6
            (sample_model\<lparr>model_sending_message := True\<rparr>, sample_serial,
             initiateSend sample_env sample_handler ''pool'' ''OFF'' True)))))) = []"
proof -
  let ?st0 = "(sample_model\<lparr>model_sending_message := True\<rparr>, sample_serial,
               initiateSend sample_env sample_handler ''pool'' ''OFF'' True)"
  have a: "checkCommand 6 ?st0 = checkCommand 6 ?st0
             \<or> checkCommand 6 ?st0 = snd (getCommand sample_env None ?st0)"
    by simp
  have b: "\<not> ready_to_send (serial_of ?st0)"
    by (simp add: serial_of_def sample_serial_fields)
  have c: "ready_to_send (serial_of (checkCommand 6 ?st0))"
    by (simp add: sample_pool_armed serial_of_def)
  from heartbeat_rule [OF a b c sample_keepalive sample_keepalive sample_keepalive
                          sample_display]
  show ?thesis
    using c
    by (simp add: sample_pool_armed serial_of_def handler_of_def initiateSend_fields
                  sample_serial_fields)
qed

section \<open>The retry bound\<close>

lemma readSerialBus_handshake:
  assumes "readSerialBus sh = Inr sh'"
  shows "sent sh' = sent sh \<and> ready_to_send sh' = ready_to_send sh"
  using assms
  by (auto simp: readSerialBus_def in_waiting_def read_def Let_def
           split: if_splits list.splits prod.splits)

lemma parseBuffer_budget_inv:
  assumes "budget_inv bound p t (pm, sh, ch)"
  shows "budget_inv bound p t (snd (parseBuffer env (pm, sh, ch)))"
  using assms
  by (auto simp: parseBuffer_def budget_inv_def Let_def reset_def send_def split: if_splits)

lemma checkCommand_budget_inv:
  assumes "budget_inv bound p t st" and "getParameterState (model_of st) p \<noteq> t"
  shows "budget_inv bound p t (checkCommand now st)"
  using assms
  by (cases st)
     (auto simp: checkCommand_def budget_inv_def sendAttemptsRemain_def model_of_def
           split: if_splits)

lemma getCommand_empty_queue:
  assumes "queue = None \<or> queue = Some []"
  shows "getCommand env queue st = (queue, st)"
  using assms by (cases st) (auto simp: getCommand_def)

lemma main_iteration_budget_inv:
  assumes "budget_inv bound p t (pm, sh, ch)"
    and "queue = None \<or> queue = Some []"
    and "readSerialBus sh = Inr sh1"
    and "getParameterState (model_of (snd (parseBuffer env (pm, sh1, ch)))) p \<noteq> t"
    and "main_iteration env now (queue, pm, sh, ch) = Inr (queue', st')"
  shows "budget_inv bound p t st' \<and> queue' = queue"
proof -
  from readSerialBus_handshake [OF assms(3)] assms(1)
  have "budget_inv bound p t (pm, sh1, ch)"
    by (simp add: budget_inv_def)
  then have "budget_inv bound p t (snd (parseBuffer env (pm, sh1, ch)))"
    by (rule parseBuffer_budget_inv)
  then have c: "budget_inv bound p t
                  (checkCommand now (snd (parseBuffer env (pm, sh1, ch))))"
    using assms(4) by (rule checkCommand_budget_inv)
  obtain pm3 sh3 ch3
    where e: "checkCommand now (snd (parseBuffer env (pm, sh1, ch))) = (pm3, sh3, ch3)"
    by (cases "checkCommand now (snd (parseBuffer env (pm, sh1, ch)))") auto
  from c e have "budget_inv bound p t (sendModel pm3, sh3, ch3)"
    by (simp add: budget_inv_def)
  moreover from assms(5) have "(queue', st') = (queue, sendModel pm3, sh3, ch3)"
    by (simp add: main_iteration_def assms(3) e getCommand_empty_queue [OF assms(2)])
  ultimately show ?thesis by simp
qed

lemma main_loop_budget_inv:
  assumes "queue = None \<or> queue = Some []"
  shows "budget_inv bound p t st
         \<Longrightarrow> \<forall>m \<in> set (observed_models env ticks (queue, st)). getParameterState m p \<noteq> t
         \<Longrightarrow> main_loop env ticks (queue, st) = Inr (queue', st')
         \<Longrightarrow> budget_inv bound p t st'"
proof (induction ticks arbitrary: st)
  case Nil
  then show ?case by simp
next
  case (Cons tick ticks)
  obtain arrived now where tick: "tick = (arrived, now)"
    by (cases tick) auto
  obtain pm sh ch where st: "st = (pm, sh, ch)"
    by (cases st) auto
  let ?sh = "sh\<lparr>pending := pending sh @ arrived\<rparr>"
  from Cons.prems(3) obtain q1 st1
    where it: "main_iteration env now (queue, pm, ?sh, ch) = Inr (q1, st1)"
      and rest: "main_loop env ticks (q1, st1) = Inr (queue', st')"
    by (auto simp: tick st split: sum.splits)
  from it obtain sh1 where r: "readSerialBus ?sh = Inr sh1"
    by (cases "readSerialBus ?sh") (auto simp: main_iteration_def)
  from Cons.prems(2)
  have seen: "getParameterState (model_of (snd (parseBuffer env (pm, sh1, ch)))) p \<noteq> t"
    and later: "\<forall>m \<in> set (observed_models env ticks (q1, st1)). getParameterState m p \<noteq> t"
    by (simp_all add: tick st r it)
  from Cons.prems(1) have "budget_inv bound p t (pm, ?sh, ch)"
    by (simp add: st budget_inv_def)
  from main_iteration_budget_inv [OF this assms r seen it]
  have "budget_inv bound p t st1" and q1: "q1 = queue"
    by simp_all
  with Cons.IH later rest show ?case by simp
qed

lemma main_loop_append:
  "main_loop env (xs @ ys) qst =
     (case main_loop env xs qst of Inl e \<Rightarrow> Inl e | Inr qst1 \<Rightarrow> main_loop env ys qst1)"
proof (induction xs arbitrary: qst)
  case Nil
  then show ?case by simp
next
  case (Cons x xs)
  obtain arrived now where x: "x = (arrived, now)"
    by (cases x) auto
  obtain queue pm sh ch where q: "qst = (queue, pm, sh, ch)"
    by (cases qst) auto
  show ?case
    by (simp add: x q Cons.IH split: sum.splits)
qed

lemma checkCommand_quiet: "quiet st \<Longrightarrow> checkCommand now st = st"
  by (cases st) (auto simp: quiet_def checkCommand_def)

lemma sendModel_idem: "sendModel (sendModel pm) = sendModel pm"
  by (simp add: sendModel_def)

lemma nth_before_last:
  "buf \<noteq> [] \<Longrightarrow> (buf @ [b]) ! (length (buf @ [b]) - 2) = last buf"
  by (cases buf rule: rev_cases) (simp_all add: nth_append)

lemma main_iteration_accumulate:
  assumes "pending sh = b # rest" and "\<not> buffer_full sh" and "\<not> looking_for_start sh"
    and "buffer sh \<noteq> []" and "\<not> (b = ETX \<and> last (buffer sh) = DLE)"
    and "quiet (pm, sh, ch)" and "queue = None \<or> queue = Some []"
  shows "main_iteration env now (queue, pm, sh, ch)
           = Inr (queue, sendModel pm, sh\<lparr>pending := rest, buffer := buffer sh @ [b]\<rparr>, ch)"
proof -
  have r: "readSerialBus sh = Inr (sh\<lparr>pending := rest, buffer := buffer sh @ [b]\<rparr>)"
    using assms(1-5) nth_before_last [OF assms(4), of b]
    by (auto simp: readSerialBus_def in_waiting_def read_def Let_def)
  have q: "quiet (pm, sh\<lparr>pending := rest, buffer := buffer sh @ [b]\<rparr>, ch)"
    using assms(6) by (simp add: quiet_def)
  show ?thesis
    using assms(2)
    by (simp add: main_iteration_def r parseBuffer_def checkCommand_quiet [OF q]
                  getCommand_empty_queue [OF assms(7)])
qed

lemma main_iteration_complete:
  assumes "pending sh = [ETX]" and "\<not> buffer_full sh" and "\<not> looking_for_start sh"
    and "buffer sh \<noteq> []" and "last (buffer sh) = DLE"
    and "queue = None \<or> queue = Some []"
  shows "main_iteration env now (queue, pm, sh, ch)
           = Inr (queue, deliver env now (buffer sh @ [ETX]) (pm, sh\<lparr>pending := []\<rparr>, ch))"
proof -
  have r: "readSerialBus sh
             = Inr (sh\<lparr>pending := [], buffer := buffer sh @ [ETX], buffer_full := True,
                       looking_for_start := True\<rparr>)"
    using assms(1-5) nth_before_last [OF assms(4), of ETX]
    by (auto simp: readSerialBus_def in_waiting_def read_def Let_def)
  show ?thesis
    by (simp add: main_iteration_def r deliver_def on_frame_def
                  getCommand_empty_queue [OF assms(6)] split: prod.splits)
qed


lemma pending_same: "pending sh = xs \<Longrightarrow> sh\<lparr>pending := xs\<rparr> = sh"
  by (cases sh) simp

lemma on_frame_framer_fields:
  "on_frame env raw (pm, sh\<lparr>buffer := b\<rparr>, ch) = on_frame env raw (pm, sh, ch)"
  "on_frame env raw (pm, sh\<lparr>looking_for_start := l\<rparr>, ch) = on_frame env raw (pm, sh, ch)"
  "on_frame env raw (pm, sh\<lparr>buffer_full := f\<rparr>, ch) = on_frame env raw (pm, sh, ch)"
  by (simp_all add: on_frame_def)

lemma main_loop_accumulate:
  assumes "queue = None \<or> queue = Some []"
  shows "pending sh = mid @ [ETX] \<Longrightarrow> \<not> buffer_full sh \<Longrightarrow> \<not> looking_for_start sh
     \<Longrightarrow> buffer sh \<noteq> [] \<Longrightarrow> no_early_end (last (buffer sh)) mid
     \<Longrightarrow> last (buffer sh @ mid) = DLE \<Longrightarrow> quiet (pm, sh, ch) \<Longrightarrow> sendModel pm = pm
     \<Longrightarrow> main_loop env (replicate (Suc (length mid)) ([], now)) (queue, pm, sh, ch)
           = Inr (queue, deliver env now (buffer sh @ mid @ [ETX]) (pm, sh\<lparr>pending := []\<rparr>, ch))"
proof (induction mid arbitrary: sh)
  case Nil
  from Nil.prems have "main_iteration env now (queue, pm, sh, ch)
      = Inr (queue, deliver env now (buffer sh @ [ETX]) (pm, sh\<lparr>pending := []\<rparr>, ch))"
    by (intro main_iteration_complete assms) simp_all
  then show ?case
    by (simp add: pending_same)
next
  case (Cons b mid)
  let ?sh = "sh\<lparr>pending := mid @ [ETX], buffer := buffer sh @ [b]\<rparr>"
  from Cons.prems have it: "main_iteration env now (queue, pm, sh, ch)
      = Inr (queue, sendModel pm, ?sh, ch)"
    by (intro main_iteration_accumulate assms) simp_all
  have q: "quiet (pm, ?sh, ch)"
    using Cons.prems(7) by (simp add: quiet_def)
  have "main_loop env (replicate (Suc (length mid)) ([], now)) (queue, pm, ?sh, ch)
      = Inr (queue, deliver env now (buffer ?sh @ mid @ [ETX]) (pm, ?sh\<lparr>pending := []\<rparr>, ch))"
    using Cons.prems q by (intro Cons.IH) simp_all
  then show ?case
    using Cons.prems(8)
    by (simp add: it pending_same deliver_def on_frame_framer_fields on_frame_def)
qed

lemma framed_decompose:
  assumes "framed raw"
  obtains mid where "raw = DLE # STX # mid @ [ETX]" and "mid \<noteq> []" and "last mid = DLE"
    and "no_early_end STX mid"
proof -
  let ?n = "length raw"
  let ?mid = "take (?n - 3) (drop 2 raw)"
  from assms have n: "4 \<le> ?n" and hd2: "take 2 raw = [DLE, STX]"
    and tl2: "drop (?n - 2) raw = [DLE, ETX]" and ne: "no_early_end STX ?mid"
    by (simp_all add: framed_def)
  have a1: "?n - 3 + 2 = ?n - 1" and a2: "1 + (?n - 2) = ?n - 1"
    and a3: "?n - 4 < ?n - 3" and a4: "2 + (?n - 4) = ?n - 2" and a5: "?n - 2 < ?n"
    and a6: "2 + (?n - 4) \<le> ?n"
    using n by arith+
  have "drop (?n - 3) (drop 2 raw) = drop (?n - 1) raw"
    by (simp only: drop_drop a1)
  also have "\<dots> = drop 1 (drop (?n - 2) raw)"
    by (simp only: drop_drop a2)
  finally have e: "drop (?n - 3) (drop 2 raw) = [ETX]"
    by (simp add: tl2)
  have "raw = take 2 raw @ ?mid @ drop (?n - 3) (drop 2 raw)"
    by (simp only: append_take_drop_id)
  then have raw: "raw = DLE # STX # ?mid @ [ETX]"
    by (simp only: hd2 e append_Cons append_Nil)
  have len: "length ?mid = ?n - 3"
    using n by simp
  then have m: "?mid \<noteq> []"
    using n by auto
  have "last ?mid = ?mid ! (?n - 4)"
    using m len by (simp add: last_conv_nth)
  also have "\<dots> = drop 2 raw ! (?n - 4)"
    using a3 by (rule nth_take)
  also have "\<dots> = raw ! (2 + (?n - 4))"
    using n by (intro nth_drop) simp
  also have "\<dots> = raw ! (?n - 2)"
    by (simp only: a4)
  also have "\<dots> = hd (drop (?n - 2) raw)"
    using a5 by (simp add: hd_drop_conv_nth)
  finally have "last ?mid = DLE"
    by (simp add: tl2)
  with raw m show ?thesis
    using ne by (rule that)
qed

lemma main_loop_feed:
  assumes "framed raw" and "pending sh = []" and "\<not> buffer_full sh" and "looking_for_start sh"
    and "quiet (pm, sh, ch)" and "queue = None \<or> queue = Some []"
  shows "main_loop env (feed raw now) (queue, pm, sh, ch)
           = Inr (queue, deliver env now raw (sendModel pm, sh, ch))"
proof -
  from assms(1) obtain mid where raw: "raw = DLE # STX # mid @ [ETX]" and m: "mid \<noteq> []"
    and l: "last mid = DLE" and ne: "no_early_end STX mid"
    by (rule framed_decompose)
  let ?sh = "sh\<lparr>pending := mid @ [ETX], buffer := [DLE, STX], looking_for_start := False\<rparr>"
  have r: "readSerialBus (sh\<lparr>pending := raw\<rparr>) = Inr ?sh"
    using assms(3,4) by (simp add: readSerialBus_def in_waiting_def read_def raw)
  have q: "quiet (pm, ?sh, ch)" and q': "quiet (sendModel pm, ?sh, ch)"
    using assms(5) by (simp_all add: quiet_def sendModel_def)
  have first: "main_iteration env now (queue, pm, sh\<lparr>pending := raw\<rparr>, ch)
                 = Inr (queue, sendModel pm, ?sh, ch)"
    using assms(3)
    by (simp add: main_iteration_def r parseBuffer_def checkCommand_quiet [OF q]
                  getCommand_empty_queue [OF assms(6)])
  have "main_loop env (replicate (Suc (length mid)) ([], now)) (queue, sendModel pm, ?sh, ch)
      = Inr (queue, deliver env now (buffer ?sh @ mid @ [ETX])
                      (sendModel pm, ?sh\<lparr>pending := []\<rparr>, ch))"
    using assms(3) m l ne q'
    by (intro main_loop_accumulate assms(6)) (simp_all add: sendModel_idem)
  then have rest: "main_loop env (replicate (Suc (length mid)) ([], now))
                     (queue, sendModel pm, ?sh, ch)
      = Inr (queue, deliver env now raw (sendModel pm, sh, ch))"
    using assms(2)
    by (simp add: raw deliver_def on_frame_def pending_same)
  show ?thesis
    using assms(2) first rest by (simp add: feed_def raw)
qed

lemma round_step:
  assumes "in_flight (pm, sh, ch)" and "0 < attempts_remaining ch"
    and "update_unmatched env x now (pm, sh, ch)"
    and "framed k1" and "is_keepalive env k1" and "framed k2" and "is_keepalive env k2"
    and "queue = None \<or> queue = Some []"
  shows "main_loop env (round_ticks (x, now, k1, k2)) (queue, pm, sh, ch)
           = Inr (queue, round_result env (x, now, k1, k2) (pm, sh, ch))"
    and "\<exists>pm'. round_result env (x, now, k1, k2) (pm, sh, ch)
           = (pm', sh\<lparr>sent := sent sh @ [full_command ch]\<rparr>,
              ch\<lparr>keep_alive_count := 1, attempts_remaining := attempts_remaining ch - 1,
                  last_model_timestamp_seen := now\<rparr>)
          \<and> timestamp pm' < now"
proof -
  let ?sh = "sh\<lparr>buffer := [], buffer_full := False, looking_for_start := True\<rparr>"
  from assms(1) have fl: "sending_message ch" "confirm ch" "\<not> ready_to_send sh"
      "timestamp pm < last_model_timestamp_seen ch" "pending sh = []" "\<not> buffer_full sh"
      "looking_for_start sh" "buffer sh = []"
    by (simp_all add: in_flight_def)
  have idle: "?sh = sh"
    using fl(6,7,8) by (cases sh) simp
  from assms(3) have fx: "framed x" and ox: "is_other env x"
    by (simp_all add: update_unmatched_def)
  obtain m where m: "on_frame env x (sendModel pm, sh, ch)
                       = (m, ?sh, ch\<lparr>keep_alive_count := 0\<rparr>)"
    using on_frame_other [OF ox] by blast
  from assms(3) have fresh: "last_model_timestamp_seen ch \<le> timestamp m"
    and old: "timestamp m < now"
    and mis: "getParameterState m (parameter ch) \<noteq> target_state ch"
    by (simp_all add: update_unmatched_def m model_of_def)
  let ?ch1 = "ch\<lparr>keep_alive_count := 0, attempts_remaining := attempts_remaining ch - 1,
                   last_model_timestamp_seen := now\<rparr>"
  have d1: "deliver env now x (sendModel pm, sh, ch)
              = (sendModel m, sh\<lparr>ready_to_send := True\<rparr>, ?ch1)"
    using fl(1,3) fresh mis assms(2)
    by (simp add: deliver_def m idle checkCommand_def sendAttemptsRemain_def)
  have d2: "deliver env now k1 (sendModel m, sh\<lparr>ready_to_send := True\<rparr>, ?ch1)
              = (sendModel m, sh\<lparr>ready_to_send := True\<rparr>, ?ch1\<lparr>keep_alive_count := 1\<rparr>)"
    using fl(1,6,7,8)
    by (simp add: deliver_def on_frame_keepalive [OF assms(5)] checkCommand_def
                  sendModel_idem)
  have d3: "deliver env now k2
              (sendModel m, sh\<lparr>ready_to_send := True\<rparr>, ?ch1\<lparr>keep_alive_count := 1\<rparr>)
              = (sendModel m, sh\<lparr>sent := sent sh @ [full_command ch]\<rparr>,
                 ?ch1\<lparr>keep_alive_count := 1\<rparr>)"
    using fl(1,2,3,6,7,8) old
    by (simp add: deliver_def on_frame_keepalive [OF assms(7)] checkCommand_def
                  sendModel_idem sendModel_def)
  have res: "round_result env (x, now, k1, k2) (pm, sh, ch)
               = (sendModel m, sh\<lparr>sent := sent sh @ [full_command ch]\<rparr>,
                  ?ch1\<lparr>keep_alive_count := 1\<rparr>)"
    by (simp only: round_result_def prod.case d1 d2 d3)
  have q0: "quiet (pm, sh, ch)"
    using fl(4) by (simp add: quiet_def)
  have q1: "quiet (sendModel m, sh\<lparr>ready_to_send := True\<rparr>, c)" for c
    by (simp add: quiet_def)
  have t1: "main_loop env (feed x now) (queue, pm, sh, ch)
              = Inr (queue, sendModel m, sh\<lparr>ready_to_send := True\<rparr>, ?ch1)"
    using main_loop_feed [OF fx fl(5,6,7) q0 assms(8)] by (simp only: d1)
  have t2: "main_loop env (feed k1 now) (queue, sendModel m, sh\<lparr>ready_to_send := True\<rparr>, ?ch1)
              = Inr (queue, sendModel m, sh\<lparr>ready_to_send := True\<rparr>,
                     ?ch1\<lparr>keep_alive_count := 1\<rparr>)"
  proof -
    have "main_loop env (feed k1 now) (queue, sendModel m, sh\<lparr>ready_to_send := True\<rparr>, ?ch1)
            = Inr (queue, deliver env now k1
                            (sendModel (sendModel m), sh\<lparr>ready_to_send := True\<rparr>, ?ch1))"
      using fl(5,6,7) by (intro main_loop_feed assms(4) assms(8) q1) simp_all
    then show ?thesis
      by (simp only: sendModel_idem d2)
  qed
  have t3: "main_loop env (feed k2 now)
              (queue, sendModel m, sh\<lparr>ready_to_send := True\<rparr>, ?ch1\<lparr>keep_alive_count := 1\<rparr>)
              = Inr (queue, sendModel m, sh\<lparr>sent := sent sh @ [full_command ch]\<rparr>,
                     ?ch1\<lparr>keep_alive_count := 1\<rparr>)"
  proof -
    have "main_loop env (feed k2 now)
            (queue, sendModel m, sh\<lparr>ready_to_send := True\<rparr>, ?ch1\<lparr>keep_alive_count := 1\<rparr>)
            = Inr (queue, deliver env now k2
                            (sendModel (sendModel m), sh\<lparr>ready_to_send := True\<rparr>,
                             ?ch1\<lparr>keep_alive_count := 1\<rparr>))"
      using fl(5,6,7) by (intro main_loop_feed assms(6) assms(8) q1) simp_all
    then show ?thesis
      by (simp only: sendModel_idem d3)
  qed
  show "main_loop env (round_ticks (x, now, k1, k2)) (queue, pm, sh, ch)
           = Inr (queue, round_result env (x, now, k1, k2) (pm, sh, ch))"
    by (simp only: round_ticks_def prod.case main_loop_append t1 t2 t3 res sum.case)
  show "\<exists>pm'. round_result env (x, now, k1, k2) (pm, sh, ch)
           = (pm', sh\<lparr>sent := sent sh @ [full_command ch]\<rparr>,
              ch\<lparr>keep_alive_count := 1, attempts_remaining := attempts_remaining ch - 1,
                  last_model_timestamp_seen := now\<rparr>)
          \<and> timestamp pm' < now"
    using old by (simp add: res sendModel_def)
qed

lemma final_step:
  assumes "in_flight (pm, sh, ch)" and "attempts_remaining ch = 0"
    and "update_unmatched env x now (pm, sh, ch)"
    and "queue = None \<or> queue = Some []"
  shows "\<exists>pm'. main_loop env (feed x now) (queue, pm, sh, ch)
           = Inr (queue, pm', sh, ch\<lparr>keep_alive_count := 0, sending_message := False\<rparr>)"
proof -
  let ?sh = "sh\<lparr>buffer := [], buffer_full := False, looking_for_start := True\<rparr>"
  from assms(1) have fl: "sending_message ch" "confirm ch" "\<not> ready_to_send sh"
      "timestamp pm < last_model_timestamp_seen ch" "pending sh = []" "\<not> buffer_full sh"
      "looking_for_start sh" "buffer sh = []"
    by (simp_all add: in_flight_def)
  have idle: "?sh = sh"
    using fl(6,7,8) by (cases sh) simp
  from assms(3) have fx: "framed x" and ox: "is_other env x"
    by (simp_all add: update_unmatched_def)
  obtain m where m: "on_frame env x (sendModel pm, sh, ch)
                       = (m, ?sh, ch\<lparr>keep_alive_count := 0\<rparr>)"
    using on_frame_other [OF ox] by blast
  from assms(3) have fresh: "last_model_timestamp_seen ch \<le> timestamp m"
    and mis: "getParameterState m (parameter ch) \<noteq> target_state ch"
    by (simp_all add: update_unmatched_def m model_of_def)
  have d: "deliver env now x (sendModel pm, sh, ch)
             = (sendModel m, sh, ch\<lparr>keep_alive_count := 0, sending_message := False\<rparr>)"
    using fl(1,3) fresh mis assms(2)
    by (simp add: deliver_def m idle checkCommand_def sendAttemptsRemain_def)
  have q0: "quiet (pm, sh, ch)"
    using fl(4) by (simp add: quiet_def)
  from main_loop_feed [OF fx fl(5,6,7) q0 assms(4)] show ?thesis
    by (simp only: d) blast
qed

lemma rounds_steps:
  assumes "queue = None \<or> queue = Some []"
  shows "in_flight (pm, sh, ch) \<Longrightarrow> attempts_remaining ch = length rounds
     \<Longrightarrow> rounds_unmatched env rounds (pm, sh, ch)
     \<Longrightarrow> main_loop env (concat (map round_ticks rounds)) (queue, pm, sh, ch)
           = Inr (queue, rounds_result env rounds (pm, sh, ch))
         \<and> (\<exists>pm' sh' ch'. rounds_result env rounds (pm, sh, ch) = (pm', sh', ch')
              \<and> in_flight (pm', sh', ch') \<and> attempts_remaining ch' = 0
              \<and> sent sh' = sent sh @ replicate (length rounds) (full_command ch)
              \<and> parameter ch' = parameter ch \<and> target_state ch' = target_state ch
              \<and> full_command ch' = full_command ch)"
proof (induction rounds arbitrary: pm sh ch)
  case Nil
  then show ?case by simp
next
  case (Cons r rounds)
  obtain x now k1 k2 where r: "r = (x, now, k1, k2)"
    by (cases r) auto
  let ?sh = "sh\<lparr>sent := sent sh @ [full_command ch]\<rparr>"
  let ?ch = "ch\<lparr>keep_alive_count := 1, attempts_remaining := attempts_remaining ch - 1,
                  last_model_timestamp_seen := now\<rparr>"
  from Cons.prems(3) have u: "update_unmatched env x now (pm, sh, ch)"
    and k: "framed k1" "is_keepalive env k1" "framed k2" "is_keepalive env k2"
    and later: "rounds_unmatched env rounds (round_result env r (pm, sh, ch))"
    by (simp_all add: r)
  from Cons.prems(2) have pos: "0 < attempts_remaining ch"
    by simp
  note step = round_step [OF Cons.prems(1) pos u k assms]
  from step(2) obtain pm1 where res: "round_result env r (pm, sh, ch) = (pm1, ?sh, ?ch)"
    and old: "timestamp pm1 < now"
    unfolding r by blast
  have fl: "in_flight (pm1, ?sh, ?ch)"
    using Cons.prems(1) old by (simp add: in_flight_def)
  have n: "attempts_remaining ?ch = length rounds"
    using Cons.prems(2) by simp
  from Cons.IH [OF fl n later [unfolded res]]
  have loop: "main_loop env (concat (map round_ticks rounds)) (queue, pm1, ?sh, ?ch)
                = Inr (queue, rounds_result env rounds (pm1, ?sh, ?ch))"
    and ex: "\<exists>pm' sh' ch'. rounds_result env rounds (pm1, ?sh, ?ch) = (pm', sh', ch')
              \<and> in_flight (pm', sh', ch') \<and> attempts_remaining ch' = 0
              \<and> sent sh' = sent ?sh @ replicate (length rounds) (full_command ?ch)
              \<and> parameter ch' = parameter ?ch \<and> target_state ch' = target_state ?ch
              \<and> full_command ch' = full_command ?ch"
    by blast+
  have "main_loop env (concat (map round_ticks (r # rounds))) (queue, pm, sh, ch)
          = Inr (queue, rounds_result env (r # rounds) (pm, sh, ch))"
    using step(1) loop by (simp add: main_loop_append r res [unfolded r])
  moreover from ex have "\<exists>pm' sh' ch'.
       rounds_result env (r # rounds) (pm, sh, ch) = (pm', sh', ch')
     \<and> in_flight (pm', sh', ch') \<and> attempts_remaining ch' = 0
     \<and> sent sh' = sent sh @ replicate (length (r # rounds)) (full_command ch)
     \<and> parameter ch' = parameter ch \<and> target_state ch' = target_state ch
     \<and> full_command ch' = full_command ch"
    by (simp add: res replicate_app_Cons_same)
  ultimately show ?case by blast
qed

lemma parseBuffer_states:
  assumes "\<And>d m. states (parseDisplay env d m) = states m"
    and "\<And>d m. states (parseLEDs env d m) = states m"
  shows "states (model_of (snd (parseBuffer env (pm, sh, ch)))) = states pm"
  using assms by (simp add: parseBuffer_def model_of_def Let_def)

lemma checkCommand_states:
  "states (model_of (checkCommand now st)) = states (model_of st)"
  by (cases st) (simp add: checkCommand_def model_of_def split: prod.splits)

lemma observed_models_states:
  assumes "\<And>d m. states (parseDisplay env d m) = states m"
    and "\<And>d m. states (parseLEDs env d m) = states m"
    and "queue = None \<or> queue = Some []"
  shows "m \<in> set (observed_models env ticks (queue, pm, sh, ch)) \<Longrightarrow> states m = states pm"
proof (induction ticks arbitrary: pm sh ch)
  case Nil
  then show ?case by simp
next
  case (Cons tick ticks)
  obtain arrived now where tick: "tick = (arrived, now)"
    by (cases tick) auto
  let ?sh = "sh\<lparr>pending := pending sh @ arrived\<rparr>"
  show ?case
  proof (cases "readSerialBus ?sh")
    case (Inl e)
    with Cons.prems show ?thesis
      by (simp add: tick)
  next
    case (Inr sh1)
    let ?st2 = "snd (parseBuffer env (pm, sh1, ch))"
    obtain pm3 sh3 ch3 where c: "checkCommand now ?st2 = (pm3, sh3, ch3)"
      by (cases "checkCommand now ?st2") auto
    have it: "main_iteration env now (queue, pm, ?sh, ch) = Inr (queue, sendModel pm3, sh3, ch3)"
      by (simp add: main_iteration_def Inr c getCommand_empty_queue [OF assms(3)])
    have s2: "states (model_of ?st2) = states pm"
      by (rule parseBuffer_states [OF assms(1,2)])
    from checkCommand_states [of now ?st2] have s3: "states (sendModel pm3) = states pm"
      by (simp add: c model_of_def s2 [unfolded model_of_def] sendModel_def)
    from Cons.prems
    have "m = model_of ?st2 \<or> m \<in> set (observed_models env ticks (queue, sendModel pm3, sh3, ch3))"
      by (simp add: tick Inr it)
    then show ?thesis
    proof
      assume "m = model_of ?st2"
      with s2 show ?thesis by simp
    next
      assume "m \<in> set (observed_models env ticks (queue, sendModel pm3, sh3, ch3))"
      then have "states m = states (sendModel pm3)"
        by (rule Cons.IH)
      with s3 show ?thesis by simp
    qed
  qed
qed

text \<open>Claim C9. A command that requires confirmation is in flight with a budget of \<open>N\<close>
  attempts and nothing else is queued. First, whatever the bus traffic and the clock: if
  no model that \<open>checkCommand\<close> observes in the run shows the desired value of the target
  parameter, the main loop never transmits the command more than \<open>N\<close> times; while the
  command is in flight, transmissions made, attempts left and the armed transmission add up
  to \<open>N\<close>; and when the command is dropped, exactly \<open>N\<close> transmissions were made.
  Second, the bound is reached: when the bus delivers \<open>N\<close> rounds of a state update
  followed by two keep-alive frames, and every update is observed unmatched, the main loop
  transmits the command exactly \<open>N\<close> times and is still in flight; with the next
  unmatched update the command is dropped, the machine is idle, and the \<open>N\<close>
  transmissions are all there are.\<close>

theorem retry_bound:
  assumes "sending_message ch" and "confirm ch" and "\<not> ready_to_send sh"
    and "attempts_remaining ch = N" and "queue = None \<or> queue = Some []"
  shows "(main_loop env ticks (queue, pm, sh, ch) = Inr (queue', pm', sh', ch')
          \<and> (\<forall>m \<in> set (observed_models env ticks (queue, pm, sh, ch)).
                getParameterState m (parameter ch) \<noteq> target_state ch)
          \<longrightarrow> length (sent sh') \<le> length (sent sh) + N
            \<and> (sending_message ch' \<longrightarrow>
                 length (sent sh') + attempts_remaining ch'
                   + (if ready_to_send sh' then 1 else 0) = length (sent sh) + N)
            \<and> (\<not> sending_message ch' \<longrightarrow>
                 length (sent sh') = length (sent sh) + N \<and> \<not> ready_to_send sh'))
       \<and> (in_flight (pm, sh, ch) \<and> length rounds = N
          \<and> rounds_unmatched env rounds (pm, sh, ch)
          \<and> update_unmatched env x now (rounds_result env rounds (pm, sh, ch))
          \<longrightarrow> (\<exists>pm1 sh1 ch1 pm2 sh2 ch2.
                main_loop env (concat (map round_ticks rounds)) (queue, pm, sh, ch)
                  = Inr (queue, pm1, sh1, ch1)
              \<and> sending_message ch1
              \<and> sent sh1 = sent sh @ replicate N (full_command ch)
              \<and> main_loop env (concat (map round_ticks rounds) @ feed x now)
                    (queue, pm, sh, ch)
                  = Inr (queue, pm2, sh2, ch2)
              \<and> \<not> sending_message ch2 \<and> \<not> ready_to_send sh2
              \<and> sent sh2 = sent sh @ replicate N (full_command ch)))"
proof (intro conjI impI)
  assume a: "main_loop env ticks (queue, pm, sh, ch) = Inr (queue', pm', sh', ch')
          \<and> (\<forall>m \<in> set (observed_models env ticks (queue, pm, sh, ch)).
                getParameterState m (parameter ch) \<noteq> target_state ch)"
  have "budget_inv (length (sent sh) + N) (parameter ch) (target_state ch) (pm, sh, ch)"
    using assms(1-4) by (simp add: budget_inv_def)
  from main_loop_budget_inv [OF assms(5) this] a
  have inv: "budget_inv (length (sent sh) + N) (parameter ch) (target_state ch) (pm', sh', ch')"
    by blast
  then show "length (sent sh') \<le> length (sent sh) + N"
    by (auto simp: budget_inv_def split: if_splits)
  from inv show "\<not> ready_to_send sh'" if "\<not> sending_message ch'"
    using that by (auto simp: budget_inv_def split: if_splits)
  from inv show "length (sent sh') = length (sent sh) + N" if "\<not> sending_message ch'"
    using that by (auto simp: budget_inv_def split: if_splits)
  from inv show "length (sent sh') + attempts_remaining ch'
                   + (if ready_to_send sh' then 1 else 0) = length (sent sh) + N"
    if "sending_message ch'"
    using that by (auto simp: budget_inv_def split: if_splits)
next
  assume b: "in_flight (pm, sh, ch) \<and> length rounds = N
          \<and> rounds_unmatched env rounds (pm, sh, ch)
          \<and> update_unmatched env x now (rounds_result env rounds (pm, sh, ch))"
  then have fl: "in_flight (pm, sh, ch)" and n: "attempts_remaining ch = length rounds"
    and ru: "rounds_unmatched env rounds (pm, sh, ch)"
    and uf: "update_unmatched env x now (rounds_result env rounds (pm, sh, ch))"
    using assms(4) by simp_all
  from rounds_steps [OF assms(5) fl n ru]
  obtain pm1 sh1 ch1
    where loop: "main_loop env (concat (map round_ticks rounds)) (queue, pm, sh, ch)
                   = Inr (queue, pm1, sh1, ch1)"
      and res: "rounds_result env rounds (pm, sh, ch) = (pm1, sh1, ch1)"
      and fl1: "in_flight (pm1, sh1, ch1)" and zero: "attempts_remaining ch1 = 0"
      and sent1: "sent sh1 = sent sh @ replicate (length rounds) (full_command ch)"
    by auto
  from final_step [OF fl1 zero uf [unfolded res] assms(5)]
  obtain pm2 where fin: "main_loop env (feed x now) (queue, pm1, sh1, ch1)
      = Inr (queue, pm2, sh1, ch1\<lparr>keep_alive_count := 0, sending_message := False\<rparr>)"
    by blast
  have all: "main_loop env (concat (map round_ticks rounds) @ feed x now) (queue, pm, sh, ch)
      = Inr (queue, pm2, sh1, ch1\<lparr>keep_alive_count := 0, sending_message := False\<rparr>)"
    by (simp add: main_loop_append loop fin)
  from fl1 have s1: "sending_message ch1" and r1: "\<not> ready_to_send sh1"
    by (simp_all add: in_flight_def)
  from b have "length rounds = N"
    by simp
  with loop all s1 r1 sent1
  show "\<exists>pm1 sh1 ch1 pm2 sh2 ch2.
                main_loop env (concat (map round_ticks rounds)) (queue, pm, sh, ch)
                  = Inr (queue, pm1, sh1, ch1)
              \<and> sending_message ch1
              \<and> sent sh1 = sent sh @ replicate N (full_command ch)
              \<and> main_loop env (concat (map round_ticks rounds) @ feed x now)
                    (queue, pm, sh, ch)
                  = Inr (queue, pm2, sh2, ch2)
              \<and> \<not> sending_message ch2 \<and> \<not> ready_to_send sh2
              \<and> sent sh2 = sent sh @ replicate N (full_command ch)"
    by (intro exI [of _ pm1] exI [of _ sh1] exI [of _ ch1] exI [of _ pm2]
              exI [of _ "ch1\<lparr>keep_alive_count := 0, sending_message := False\<rparr>"]) simp
qed

lemma sample_framed: "framed keepalive_frame" "framed display_frame"
  by (simp_all add: framed_def keepalive_frame_def display_frame_def DLE_def STX_def ETX_def)

lemma sample_on_display:
  "on_frame sample_env display_frame (pm, sh, ch)
     = (sample_decoder [0x41] pm,
        sh\<lparr>buffer := [], buffer_full := False, looking_for_start := True\<rparr>,
        ch\<lparr>keep_alive_count := 0\<rparr>)"
  by (simp add: on_frame_def parseBuffer_def sample_env_def display_frame_def
                sample_checksum_def slice_between_def reset_def)

lemma sample_max_attempts: "max_attempts sample_env = 2"
  by (simp add: sample_env_def)

lemmas sample_round_eval = sample_max_attempts
  round_result_def deliver_def sample_on_display on_frame_keepalive [OF sample_keepalive]
  checkCommand_def sendAttemptsRemain_def sendModel_def sample_decoder_def
  getParameterState_def model_of_def initiateSend_def sample_model_def sample_serial_def
  sample_handler_def

lemma sample_round_1:
  "round_result sample_env (display_frame, 13 / 2, keepalive_frame, keepalive_frame)
     sample_in_flight
     = (sample_model\<lparr>model_sending_message := True, timestamp := 6\<rparr>,
        sample_serial\<lparr>sent := [encode_command sample_env ''pool'']\<rparr>,
        sample_handler\<lparr>parameter := ''pool'', target_state := ''OFF'', confirm := True,
                       sending_message := True, keep_alive_count := 1,
                       full_command := encode_command sample_env ''pool'',
                       attempts_remaining := 1, last_model_timestamp_seen := 13 / 2\<rparr>)"
  by (simp add: sample_in_flight_def sample_round_eval)

lemma sample_round_2:
  "round_result sample_env (display_frame, 15 / 2, keepalive_frame, keepalive_frame)
     (sample_model\<lparr>model_sending_message := True, timestamp := 6\<rparr>,
      sample_serial\<lparr>sent := [encode_command sample_env ''pool'']\<rparr>,
      sample_handler\<lparr>parameter := ''pool'', target_state := ''OFF'', confirm := True,
                     sending_message := True, keep_alive_count := 1,
                     full_command := encode_command sample_env ''pool'',
                     attempts_remaining := 1, last_model_timestamp_seen := 13 / 2\<rparr>)
     = (sample_model\<lparr>model_sending_message := True, timestamp := 7\<rparr>,
        sample_serial\<lparr>sent := [encode_command sample_env ''pool'',
                                 encode_command sample_env ''pool'']\<rparr>,
        sample_handler\<lparr>parameter := ''pool'', target_state := ''OFF'', confirm := True,
                       sending_message := True, keep_alive_count := 1,
                       full_command := encode_command sample_env ''pool'',
                       attempts_remaining := 0, last_model_timestamp_seen := 15 / 2\<rparr>)"
  by (simp add: sample_round_eval)

theorem retry_bound_witness:
  "in_flight sample_in_flight
   \<and> attempts_remaining (handler_of sample_in_flight) = 2
   \<and> sent (serial_of sample_in_flight) = []
   \<and> (case main_loop sample_env
             (concat (map round_ticks sample_rounds) @ feed display_frame (17 / 2))
             (Some [], sample_in_flight) of
        Inl e \<Rightarrow> False
      | Inr (queue', pm', sh', ch') \<Rightarrow>
          \<not> sending_message ch' \<and> \<not> ready_to_send sh'
          \<and> sent sh' = [encode_command sample_env ''pool'', encode_command sample_env ''pool'']
          \<and> length (sent sh') = 2)"
proof -
  let ?pm = "sample_model\<lparr>model_sending_message := True\<rparr>"
  let ?ch = "(initiateSend sample_env sample_handler ''pool'' ''OFF'' True)
               \<lparr>last_model_timestamp_seen := 11 / 2\<rparr>"
  let ?ticks = "concat (map round_ticks sample_rounds) @ feed display_frame (17 / 2)"
  have st: "sample_in_flight = (?pm, sample_serial, ?ch)"
    by (simp add: sample_in_flight_def)
  have s: "sending_message ?ch" and c: "confirm ?ch" and n: "attempts_remaining ?ch = 2"
    by (simp_all add: initiateSend_fields sample_env_def)
  have r: "\<not> ready_to_send sample_serial"
    by (rule sample_serial_fields)
  have q: "Some ([] :: string) = None \<or> Some ([] :: string) = Some []"
    by simp
  have fl: "in_flight (?pm, sample_serial, ?ch)"
    by (simp add: in_flight_def initiateSend_fields sample_model_def sample_serial_def)
  have len: "length sample_rounds = 2"
    by (simp add: sample_rounds_def)
  have ru: "rounds_unmatched sample_env sample_rounds (?pm, sample_serial, ?ch)"
    unfolding sample_rounds_def st [symmetric]
    by (simp add: sample_round_1 sample_round_2 update_unmatched_def sample_framed
                  sample_keepalive sample_display sample_on_display)
       (simp add: sample_in_flight_def sample_round_eval)
  have uf: "update_unmatched sample_env display_frame (17 / 2)
              (rounds_result sample_env sample_rounds (?pm, sample_serial, ?ch))"
    unfolding sample_rounds_def st [symmetric]
    by (simp add: sample_round_1 sample_round_2 update_unmatched_def sample_framed
                  sample_display sample_on_display)
       (simp add: sample_round_eval)
  note th = retry_bound [OF s c r n q, where env = sample_env and pm = ?pm
                           and rounds = sample_rounds and x = display_frame
                           and now = "17 / 2" and ticks = ?ticks]
  from th fl len ru uf obtain pm2 sh2 ch2
    where run: "main_loop sample_env ?ticks (Some [], ?pm, sample_serial, ?ch)
                  = Inr (Some [], pm2, sh2, ch2)"
      and idle: "\<not> sending_message ch2" "\<not> ready_to_send sh2"
      and sent2: "sent sh2 = sent sample_serial @ replicate 2 (full_command ?ch)"
    by blast
  have seen: "\<forall>m \<in> set (observed_models sample_env ?ticks (Some [], ?pm, sample_serial, ?ch)).
                getParameterState m (parameter ?ch) \<noteq> target_state ?ch"
  proof
    fix m
    assume "m \<in> set (observed_models sample_env ?ticks (Some [], ?pm, sample_serial, ?ch))"
    then have "states m = states ?pm"
      by (rule observed_models_states [rotated 3])
         (simp_all add: sample_env_def sample_decoder_def)
    then show "getParameterState m (parameter ?ch) \<noteq> target_state ?ch"
      by (simp add: getParameterState_def initiateSend_fields sample_model_def)
  qed
  from th [where queue' = "Some []" and pm' = pm2 and sh' = sh2 and ch' = ch2] run seen idle
  have "length (sent sh2) = length (sent sample_serial) + 2"
    by blast
  with run idle sent2 fl n show ?thesis
    by (simp add: st handler_of_def serial_of_def sample_serial_fields initiateSend_fields
                  numeral_2_eq_2)
qed

end
